theory Spec2Isabelle
  imports Complex_Main "HOL-Library.List_Lexorder" "HOL-Library.Char_ord"
begin

section \<open>Common values\<close>

text \<open>
  A raised exception is a value: the name of its class and its message.
\<close>

datatype exn = Exn (exn_class: string) (exn_msg: string)

text \<open>Python's \<open>str\<close> on an integer, which is also PostgreSQL's \<open>bigint::TEXT\<close>.\<close>

definition digit_char :: "nat \<Rightarrow> char" where
  "digit_char d = char_of (of_char (CHR ''0'') + d)"

fun str_nat :: "nat \<Rightarrow> string" where
  "str_nat n = (if n < 10 then [digit_char n] else str_nat (n div 10) @ [digit_char (n mod 10)])"

declare str_nat.simps [simp del]

definition str_int :: "int \<Rightarrow> string" where
  "str_int i = (if i < 0 then CHR ''-'' # str_nat (nat (- i)) else str_nat (nat i))"

section \<open>ensure\_trash\_ts.py\<close>

text \<open>
  The metadata of a collection or data object is the list of its AVUs.  \<open>keys\<close> lists the
  attribute names, and the item assignment \<open>metadata[name] = meta\<close> of the client library
  removes every AVU of that name and then adds \<open>meta\<close>.
\<close>

record avu =
  avu_name :: string
  avu_value :: string
  avu_units :: "string option"

definition iRODSMeta :: "string \<Rightarrow> string \<Rightarrow> avu" where
  "iRODSMeta n v = \<lparr>avu_name = n, avu_value = v, avu_units = None\<rparr>"

definition meta_keys :: "avu list \<Rightarrow> string list" where
  "meta_keys m = map avu_name m"

definition meta_setitem :: "string \<Rightarrow> avu \<Rightarrow> avu list \<Rightarrow> avu list" where
  "meta_setitem k a m = filter (\<lambda>x. avu_name x \<noteq> k) m @ [a]"

record entry =
  entry_path :: string
  entry_metadata :: "avu list"

text \<open>
  \<open>add_coll_avu\<close> and \<open>add_obj_avu\<close>; \<open>now\<close> is \<open>int(time.time())\<close>, the clock being an
  input of the model.
\<close>

definition add_coll_avu :: "int \<Rightarrow> entry \<Rightarrow> entry" where
  "add_coll_avu now col =
     (if ''ipc::trash_timestamp'' \<notin> set (meta_keys (entry_metadata col)) then
        let trash_timestamp_meta = iRODSMeta ''ipc::trash_timestamp'' (''0'' @ str_int now)
        in col\<lparr>entry_metadata :=
                 meta_setitem (avu_name trash_timestamp_meta) trash_timestamp_meta (entry_metadata col)\<rparr>
      else col)"

definition add_obj_avu :: "int \<Rightarrow> entry \<Rightarrow> entry" where
  "add_obj_avu now obj =
     (if ''ipc::trash_timestamp'' \<notin> set (meta_keys (entry_metadata obj)) then
        let trash_timestamp_meta = iRODSMeta ''ipc::trash_timestamp'' (''0'' @ str_int now)
        in obj\<lparr>entry_metadata :=
                 meta_setitem (avu_name trash_timestamp_meta) trash_timestamp_meta (entry_metadata obj)\<rparr>
      else obj)"

definition meta_values :: "string \<Rightarrow> avu list \<Rightarrow> string list" where
  "meta_values k m = map avu_value (filter (\<lambda>x. avu_name x = k) m)"

section \<open>data-usage-report/main.py: results and the catalog\<close>

text \<open>
  A call of the source returns, raises, or hands the database a text that is no longer the
  statement the source spells out (a value interpolated into the SQL changed its shape);
  what the database makes of such a text is beyond this model.
\<close>

datatype 'a result = Returns 'a | Raises exn | Beyond

text \<open>The catalog tables the queries read, a row a record, a table the list of its rows.\<close>

record r_resc_main =
  resc_id :: int
  resc_name :: string
  resc_parent :: string
  resc_net :: string

record r_coll_main =
  coll_id :: int
  coll_name :: string

record r_data_main =
  data_id :: int
  data_coll_id :: int
  data_size :: int
  data_resc_id :: int

record r_objt_access =
  object_id :: int
  access_user_id :: int

record r_user_main =
  user_id :: int
  user_name :: string

record r_zone_main =
  zone_name :: string
  zone_type_name :: string

record catalog =
  resc_main :: "r_resc_main list"
  coll_main :: "r_coll_main list"
  data_main :: "r_data_main list"
  objt_access :: "r_objt_access list"
  user_main :: "r_user_main list"
  zone_main :: "r_zone_main list"

section \<open>SQL text built by interpolation\<close>

text \<open>Python's \<open>sep.join(xs)\<close>.\<close>

fun join :: "string \<Rightarrow> string list \<Rightarrow> string" where
  "join sep [] = []"
| "join sep [x] = x"
| "join sep (x # y # ys) = x @ sep @ join sep (y # ys)"

text \<open>
  A character of the model is a Unicode code point below 256, not a byte of an encoding.

  \<open>sqlalchemy.text\<close> scans its argument for bind parameters with the regular expression
  \<open>(?<![:\w\x5c]):(\w+)(?!:)\<close>, inside quotes as well as outside, and executing a text with
  a bind parameter that has no value raises.  The texts of the source hold no bind parameter
  of their own (their colons are those of \<open>::TEXT\<close> and \<open>::NUMERIC\<close>), so the scan is
  that of the interpolated part between its parentheses.  The class \<open>\w\<close> is that of
  Python for a \<open>str\<close> pattern: the underscore and the alphanumeric code points, which
  below 256 are the ASCII letters and digits and the code points listed in \<open>is_word\<close>.
\<close>

definition is_ascii_word :: "char \<Rightarrow> bool" where
  "is_ascii_word c = (let n = (of_char c :: nat) in
     (48 \<le> n \<and> n \<le> 57) \<or> (65 \<le> n \<and> n \<le> 90) \<or> (97 \<le> n \<and> n \<le> 122) \<or> c = CHR ''_'')"

definition is_word :: "char \<Rightarrow> bool" where
  "is_word c = (let n = (of_char c :: nat) in
     is_ascii_word c \<or> n = 170 \<or> n = 178 \<or> n = 179 \<or> n = 181 \<or> n = 185 \<or> n = 186
     \<or> (188 \<le> n \<and> n \<le> 190) \<or> (192 \<le> n \<and> n \<le> 214) \<or> (216 \<le> n \<and> n \<le> 246)
     \<or> (248 \<le> n \<and> n \<le> 255))"

fun bind_name :: "string \<Rightarrow> bool" where
  "bind_name [] = False"
| "bind_name [d] = is_word d"
| "bind_name (d # e # es) = (is_word d \<and> e \<noteq> CHR '':'')"

definition bind_blocked :: "char option \<Rightarrow> bool" where
  "bind_blocked prev = (case prev of None \<Rightarrow> False
     | Some p \<Rightarrow> p = CHR '':'' \<or> p = CHR 0x5C \<or> is_word p)"

fun bind_scan :: "char option \<Rightarrow> string \<Rightarrow> bool" where
  "bind_scan prev [] = False"
| "bind_scan prev (c # cs) =
     ((c = CHR '':'' \<and> \<not> bind_blocked prev \<and> bind_name cs) \<or> bind_scan (Some c) cs)"

definition has_bind_param :: "string \<Rightarrow> bool" where
  "has_bind_param txt = bind_scan None txt"

text \<open>
  A colon after a backslash is no bind parameter; the backslash is an escape that
  \<open>sqlalchemy.text\<close> may remove, so that the database is given another text.
\<close>

fun has_escaped_colon :: "string \<Rightarrow> bool" where
  "has_escaped_colon (a # b # cs) = ((a = CHR 0x5C \<and> b = CHR '':'') \<or> has_escaped_colon (b # cs))"
| "has_escaped_colon [a] = False"
| "has_escaped_colon [] = False"

definition literal_text :: "string \<Rightarrow> bool" where
  "literal_text txt = (\<not> has_bind_param txt \<and> \<not> has_escaped_colon txt)"

text \<open>
  The SQL lexer on a list of string literals: a literal runs from a quote to the next quote
  that is not doubled, a doubled quote standing for one quote.  \<open>sql_in_list\<close> reads the
  text between the parentheses of \<open>IN (...)\<close> and is \<open>None\<close> when the text is not a
  comma-separated list of string literals.
\<close>

abbreviation quote :: char where
  "quote \<equiv> CHR 0x27"

definition cons_fst :: "char \<Rightarrow> (string \<times> string) option \<Rightarrow> (string \<times> string) option" where
  "cons_fst c r = map_option (\<lambda>(v, rest). (c # v, rest)) r"

fun lit_body :: "string \<Rightarrow> (string \<times> string) option" where
  "lit_body [] = None"
| "lit_body [c] = (if c = quote then Some ([], []) else None)"
| "lit_body (c # d # cs) =
     (if c = quote then (if d = quote then cons_fst quote (lit_body cs) else Some ([], d # cs))
      else cons_fst c (lit_body (d # cs)))"

definition skip_spaces :: "string \<Rightarrow> string" where
  "skip_spaces s = dropWhile (\<lambda>c. c = CHR '' '') s"

lemma lit_body_shorter: "lit_body s = Some (v, r) \<Longrightarrow> length r < length s"
proof (induction s arbitrary: v r rule: lit_body.induct)
  case 1
  then show ?case by simp
next
  case (2 c)
  then show ?case by (simp split: if_splits)
next
  case (3 c d cs)
  then show ?case
    by (fastforce simp: cons_fst_def split: if_splits)
qed

lemma skip_spaces_length: "length (skip_spaces s) \<le> length s"
  by (simp add: skip_spaces_def length_dropWhile_le)

function sql_in_list :: "string \<Rightarrow> string list option" where
  "sql_in_list s =
     (case skip_spaces s of
        [] \<Rightarrow> None
      | c # rest \<Rightarrow>
          if c \<noteq> quote then None
          else (case lit_body rest of
                  None \<Rightarrow> None
                | Some (v, rest') \<Rightarrow>
                    (case skip_spaces rest' of
                       [] \<Rightarrow> Some [v]
                     | c' # rest'' \<Rightarrow>
                         if c' = CHR '','' then map_option ((#) v) (sql_in_list rest'') else None)))"
  by pat_completeness auto
termination
proof (relation "measure length", goal_cases)
  case 1
  then show ?case by simp
next
  case (2 s c rest x2 v rest' c' rest'')
  have a: "length rest < length s"
    using 2(1) skip_spaces_length [of s] by simp
  have b: "length rest' < length rest"
    using 2(3,4) lit_body_shorter [of rest v rest'] by simp
  have c: "length rest'' < length rest'"
    using 2(5) skip_spaces_length [of rest'] by simp
  show ?case using a b c by simp
qed

declare sql_in_list.simps [simp del]

section \<open>Step 1: the storage resources\<close>

text \<open>
  The recursive query of \<open>create_store_resc_table\<close>.  The seed rows are the resources named
  in the list; the recursive term joins the rows added last (the working table) with their
  children, keeping children of rows whose \<open>resc_net\<close> is \<open>EMPTY_RESC_HOST\<close>; \<open>UNION\<close>
  discards duplicates and rows already in the result, and the evaluation ends when no row is
  new.
\<close>

type_synonym hier_row = "int \<times> string"

definition hier_seed :: "r_resc_main list \<Rightarrow> string list \<Rightarrow> hier_row list" where
  "hier_seed rescs names =
     remdups (map (\<lambda>m. (resc_id m, resc_net m)) (filter (\<lambda>m. resc_name m \<in> set names) rescs))"

definition hier_step :: "r_resc_main list \<Rightarrow> hier_row list \<Rightarrow> hier_row list" where
  "hier_step rescs working =
     concat (map (\<lambda>h. map (\<lambda>m. (resc_id m, resc_net m))
                          (filter (\<lambda>m. resc_parent m = str_int (fst h)
                                        \<and> snd h = ''EMPTY_RESC_HOST'') rescs)) working)"

definition hier_new :: "r_resc_main list \<Rightarrow> hier_row list \<Rightarrow> hier_row list \<Rightarrow> hier_row list" where
  "hier_new rescs result working =
     remdups (filter (\<lambda>x. x \<notin> set result) (hier_step rescs working))"

lemma hier_step_rows: "set (hier_step rescs working) \<subseteq> (\<lambda>m. (resc_id m, resc_net m)) ` set rescs"
  by (auto simp: hier_step_def)

lemma hier_new_decreases:
  assumes "hier_new rescs result working \<noteq> []"
  shows "card ((\<lambda>m. (resc_id m, resc_net m)) ` set rescs - set (result @ hier_new rescs result working))
         < card ((\<lambda>m. (resc_id m, resc_net m)) ` set rescs - set result)"
proof -
  let ?all = "(\<lambda>m. (resc_id m, resc_net m)) ` set rescs"
  obtain x where x: "x \<in> set (hier_new rescs result working)"
    using assms by (cases "hier_new rescs result working") auto
  have xin: "x \<in> ?all - set result"
    using x hier_step_rows [of rescs working] by (auto simp: hier_new_def)
  have "?all - set (result @ hier_new rescs result working) \<subset> ?all - set result"
    using x xin by auto
  then show ?thesis by (simp add: psubset_card_mono)
qed

function resc_closure :: "r_resc_main list \<Rightarrow> hier_row list \<Rightarrow> hier_row list \<Rightarrow> hier_row list" where
  "resc_closure rescs result working =
     (let new = hier_new rescs result working
      in if new = [] then result else resc_closure rescs (result @ new) new)"
  by pat_completeness auto
termination
proof (relation "measure (\<lambda>(rescs, result, working).
         card ((\<lambda>m. (resc_id m, resc_net m)) ` set rescs - set result))", goal_cases)
  case 1
  then show ?case by simp
next
  case (2 rescs result working new)
  then show ?case using hier_new_decreases [of rescs result working] by simp
qed

declare resc_closure.simps [simp del]

definition resc_hier :: "r_resc_main list \<Rightarrow> string list \<Rightarrow> hier_row list" where
  "resc_hier rescs names = resc_closure rescs (hier_seed rescs names) (hier_seed rescs names)"



definition resources_str :: "string list \<Rightarrow> string" where
  "resources_str root_resources = join '', '' (map (\<lambda>r. [quote] @ r @ [quote]) root_resources)"

definition create_store_resc_table :: "r_resc_main list \<Rightarrow> string list \<Rightarrow> int list result" where
  "create_store_resc_table rescs root_resources =
     (if has_bind_param (''('' @ resources_str root_resources @ '')'') then
        Raises (Exn ''StatementError'' ''A value is required for bind parameter'')
      else if has_escaped_colon (''('' @ resources_str root_resources @ '')'') then Beyond
      else if resources_str root_resources = [] then
        Raises (Exn ''ProgrammingError'' ''syntax error at or near )'')
      else (case sql_in_list (resources_str root_resources) of
              None \<Rightarrow> Beyond
            | Some names \<Rightarrow> Returns (map fst (resc_hier rescs names))))"

section \<open>Step 2: the project collections\<close>

text \<open>
  \<open>LIKE\<close>: in a pattern \<open>%\<close> matches any string and \<open>_\<close> any one character.
\<close>

fun sql_like :: "string \<Rightarrow> string \<Rightarrow> bool" where
  "sql_like [] s = (s = [])"
| "sql_like (p # ps) [] = (p = CHR ''%'' \<and> sql_like ps [])"
| "sql_like (p # ps) (c # cs) =
     (if p = CHR ''%'' then sql_like ps (c # cs) \<or> sql_like (p # ps) cs
      else (p = CHR ''_'' \<or> p = c) \<and> sql_like ps cs)"

text \<open>
  \<open>SIMILAR TO '/{zone}/home/shared/commons_repo(/%)?'\<close>: the whole string matches the
  pattern, in which \<open>%\<close> and \<open>_\<close> mean what they mean for \<open>LIKE\<close> and the group
  \<open>(/%)?\<close> is optional, so the pattern stands for the two patterns with and without it.
\<close>

definition similar_to_commons_repo :: "string \<Rightarrow> string \<Rightarrow> bool" where
  "similar_to_commons_repo zone s =
     (sql_like (''/'' @ zone @ ''/home/shared/commons_repo'') s
      \<or> sql_like (''/'' @ zone @ ''/home/shared/commons_repo'' @ ''/%'') s)"

text \<open>
  \<open>REGEXP_REPLACE(coll_name, '/{zone}/home/shared/([^/]+).*', '\1')\<close> replaces the leftmost
  match by its first group.  A match begins where the text \<open>/{zone}/home/shared/\<close> is followed
  by a character other than \<open>/\<close>; the group takes the characters up to the next \<open>/\<close> and
  \<open>.*\<close> the rest of the string.  Without a match the string is returned as it is.
\<close>

definition match_here :: "string \<Rightarrow> string \<Rightarrow> string option" where
  "match_here pre s =
     (if take (length pre) s = pre \<and> takeWhile (\<lambda>c. c \<noteq> CHR ''/'') (drop (length pre) s) \<noteq> []
      then Some (takeWhile (\<lambda>c. c \<noteq> CHR ''/'') (drop (length pre) s)) else None)"

fun regexp_replace_first :: "string \<Rightarrow> string \<Rightarrow> string" where
  "regexp_replace_first pre [] = []"
| "regexp_replace_first pre (c # cs) =
     (case match_here pre (c # cs) of
        Some seg \<Rightarrow> seg
      | None \<Rightarrow> c # regexp_replace_first pre cs)"

text \<open>
  The zone is interpolated into the three patterns.  The model follows zones made of
  ASCII letters, digits, \<open>_\<close> and \<open>-\<close>: \<open>_\<close> is a wildcard of \<open>LIKE\<close> and \<open>SIMILAR TO\<close> and
  stands for itself in the regular expression, the others stand for themselves in all three.
\<close>

definition plain_zone :: "string \<Rightarrow> bool" where
  "plain_zone zone = list_all (\<lambda>c. is_ascii_word c \<or> c = CHR ''-'') zone"

record proj_coll_row =
  pc_proj :: string
  pc_coll_id :: int

definition create_proj_coll_table :: "r_coll_main list \<Rightarrow> string \<Rightarrow> proj_coll_row list result" where
  "create_proj_coll_table colls zone =
     (if \<not> plain_zone zone then Beyond
      else Returns
        (map (\<lambda>c. \<lparr>pc_proj = regexp_replace_first (''/'' @ zone @ ''/home/shared/'') (coll_name c),
                    pc_coll_id = coll_id c\<rparr>)
             (filter (\<lambda>c. sql_like (''/'' @ zone @ ''/home/shared/%'') (coll_name c)
                          \<and> \<not> similar_to_commons_repo zone (coll_name c)) colls)))"

section \<open>Steps 3 to 5: project data, public objects, public project data\<close>

record proj_data_row =
  pd_proj :: string
  pd_coll_id :: int
  pd_data_id :: int
  pd_data_size :: int

text \<open>
  \<open>create_proj_data_table\<close>: the join of \<open>proj_coll\<close> with \<open>r_data_main\<close> on the
  collection, one row for each data row (each replica) stored on a resource of \<open>store_resc\<close>.
\<close>

definition create_proj_data_table ::
  "proj_coll_row list \<Rightarrow> r_data_main list \<Rightarrow> int list \<Rightarrow> proj_data_row list" where
  "create_proj_data_table proj_coll datas store_resc =
     concat (map (\<lambda>c. map (\<lambda>d. \<lparr>pd_proj = pc_proj c, pd_coll_id = pc_coll_id c,
                                   pd_data_id = data_id d, pd_data_size = data_size d\<rparr>)
                          (filter (\<lambda>d. data_coll_id d = pc_coll_id c
                                        \<and> data_resc_id d \<in> set store_resc) datas)) proj_coll)"

text \<open>
  \<open>create_pub_obj_table\<close>.  The scalar subquery for the identifier of the user \<open>public\<close> is
  NULL without such a user, so that no row is selected, and raises with more than one.
\<close>

definition create_pub_obj_table :: "r_objt_access list \<Rightarrow> r_user_main list \<Rightarrow> int list result" where
  "create_pub_obj_table access users =
     (case filter (\<lambda>u. user_name u = ''public'') users of
        [] \<Rightarrow> Returns []
      | [u] \<Rightarrow> Returns (map object_id (filter (\<lambda>a. access_user_id a = user_id u) access))
      | _ \<Rightarrow> Raises (Exn ''ProgrammingError''
                 ''more than one row returned by a subquery used as an expression''))"

record pub_proj_data_row =
  pp_proj :: string
  pp_data_id :: int
  pp_data_size :: int

definition is_pub :: "int list \<Rightarrow> proj_data_row \<Rightarrow> bool" where
  "is_pub pub_obj r = (pd_coll_id r \<in> set pub_obj \<and> pd_data_id r \<in> set pub_obj)"

definition to_pub :: "proj_data_row \<Rightarrow> pub_proj_data_row" where
  "to_pub r = \<lparr>pp_proj = pd_proj r, pp_data_id = pd_data_id r, pp_data_size = pd_data_size r\<rparr>"

definition create_pub_proj_data_table :: "proj_data_row list \<Rightarrow> int list \<Rightarrow> pub_proj_data_row list" where
  "create_pub_proj_data_table proj_data pub_obj = map to_pub (filter (is_pub pub_obj) proj_data)"

section \<open>Step 6: the final query\<close>

text \<open>
  \<open>proj_data AS a LEFT JOIN pub_proj_data AS p ON p.data_id = a.data_id\<close>: each row of
  \<open>proj_data\<close> with each row of \<open>pub_proj_data\<close> of the same data identifier, and once with
  NULL when there is none.
\<close>

definition left_join ::
  "proj_data_row list \<Rightarrow> pub_proj_data_row list \<Rightarrow> (proj_data_row \<times> pub_proj_data_row option) list" where
  "left_join proj_data pub_proj_data =
     concat (map (\<lambda>a. case filter (\<lambda>p. pp_data_id p = pd_data_id a) pub_proj_data of
                          [] \<Rightarrow> [(a, None)]
                        | ps \<Rightarrow> map (\<lambda>p. (a, Some p)) ps) proj_data)"

text \<open>\<open>SUM\<close> skips NULL and is NULL when nothing is left; \<open>COALESCE\<close> replaces NULL.\<close>

definition sql_sum :: "int option list \<Rightarrow> int option" where
  "sql_sum vs = (case concat (map (\<lambda>v. case v of None \<Rightarrow> [] | Some x \<Rightarrow> [x]) vs) of
                   [] \<Rightarrow> None | xs \<Rightarrow> Some (sum_list xs))"

definition coalesce :: "'a option \<Rightarrow> 'a \<Rightarrow> 'a" where
  "coalesce v d = (case v of None \<Rightarrow> d | Some x \<Rightarrow> x)"

definition group_rows ::
  "string \<Rightarrow> (proj_data_row \<times> pub_proj_data_row option) list \<Rightarrow> (proj_data_row \<times> pub_proj_data_row option) list" where
  "group_rows proj j = filter (\<lambda>(a, p). pd_proj a = proj) j"

definition tot_vol :: "(proj_data_row \<times> pub_proj_data_row option) list \<Rightarrow> int" where
  "tot_vol g = sum_list (map (\<lambda>(a, p). pd_data_size a) g)"

definition pub_vol :: "(proj_data_row \<times> pub_proj_data_row option) list \<Rightarrow> int" where
  "pub_vol g = coalesce (sql_sum (map (\<lambda>(a, p). map_option pp_data_size p) g)) 0"

text \<open>
  \<open>ROUND((v / 2^30)::NUMERIC, 3)\<close>.  The sum \<open>v\<close> is a \<open>NUMERIC\<close> and \<open>2^30\<close> a double
  precision value, so the database converts \<open>v\<close> to double precision (the nearest value
  with 53 significant bits, ties to even), divides in double precision (exact for a power of
  two), casts the quotient to \<open>NUMERIC\<close> by printing it with 15 significant decimal digits
  (ties to even), and rounds that to 3 decimal digits, ties away from zero.  A double
  precision value is represented by the rational number it stands for; sums are far inside
  the range of double precision, so infinities and subnormal numbers do not arise.
\<close>

definition round_numeric :: "rat \<Rightarrow> nat \<Rightarrow> rat" where
  "round_numeric x s =
     (if 0 \<le> x then of_int \<lfloor>x * 10 ^ s + 1 / 2\<rfloor> / 10 ^ s
      else - (of_int \<lfloor>- x * 10 ^ s + 1 / 2\<rfloor> / 10 ^ s))"

definition round_half_even :: "rat \<Rightarrow> int" where
  "round_half_even q =
     (let f = \<lfloor>q\<rfloor>; r = q - of_int f
      in if r < 1 / 2 then f else if 1 / 2 < r then f + 1 else if even f then f else f + 1)"

text \<open>The number of binary digits and of decimal digits of a positive integer.\<close>

function bit_length :: "int \<Rightarrow> int" where
  "bit_length n = (if n \<le> 0 then 0 else 1 + bit_length (n div 2))"
  by pat_completeness auto
termination
  by (relation "measure nat") auto

function digit_count :: "int \<Rightarrow> int" where
  "digit_count n = (if n < 10 then 1 else 1 + digit_count (n div 10))"
  by pat_completeness auto
termination
  by (relation "measure nat") auto

declare bit_length.simps [simp del] digit_count.simps [simp del]

definition float8_of_int :: "int \<Rightarrow> rat" where
  "float8_of_int v =
     (let k = bit_length \<bar>v\<bar> - 53
      in if k \<le> 0 then of_int v
         else of_int (sgn v * round_half_even (of_int \<bar>v\<bar> / 2 ^ nat k) * 2 ^ nat k))"

text \<open>The decimal exponent \<open>e\<close> of a positive number \<open>a\<close>: \<open>10^e \<le> a < 10^(e+1)\<close>.\<close>

definition decimal_exponent :: "rat \<Rightarrow> int" where
  "decimal_exponent a =
     (if 1 \<le> a then digit_count \<lfloor>a\<rfloor> - 1 else - digit_count (\<lceil>1 / a\<rceil> - 1))"

definition pow10 :: "int \<Rightarrow> rat" where
  "pow10 e = (if 0 \<le> e then 10 ^ nat e else 1 / 10 ^ nat (- e))"

definition numeric_of_float8 :: "rat \<Rightarrow> rat" where
  "numeric_of_float8 x =
     (if x = 0 then 0
      else let s = 14 - decimal_exponent \<bar>x\<bar>
           in sgn x * of_int (round_half_even (\<bar>x\<bar> * pow10 s)) / pow10 s)"

definition gib :: "int \<Rightarrow> rat" where
  "gib v = round_numeric (numeric_of_float8 (float8_of_int v / 2 ^ 30)) 3"

record report_row =
  Total :: rat
  Public :: rat
  Private :: rat
  Project :: string

text \<open>
  The volume columns of the final query: one row for each project of \<open>proj_data\<close>, in the
  order of the project names.
\<close>

definition report_volumes :: "proj_data_row list \<Rightarrow> pub_proj_data_row list \<Rightarrow> report_row list" where
  "report_volumes proj_data pub_proj_data =
     map (\<lambda>proj. let g = group_rows proj (left_join proj_data pub_proj_data)
                  in \<lparr>Total = gib (tot_vol g), Public = gib (pub_vol g),
                      Private = gib (tot_vol g - pub_vol g), Project = proj\<rparr>)
         (sort (remdups (map pd_proj proj_data)))"

text \<open>
  The final query also reads the columns \<open>creator\<close> and \<open>owner\<close> of \<open>proj_coll\<close>, to
  aggregate them for each project.  \<open>create_proj_coll_table\<close> creates the table with the
  columns \<open>proj\<close> and \<open>coll_id\<close> alone, so the database rejects the query.
\<close>

definition proj_coll_columns :: "string list" where
  "proj_coll_columns = [''proj'', ''coll_id'']"

definition final_query :: "proj_data_row list \<Rightarrow> pub_proj_data_row list \<Rightarrow> report_row list result" where
  "final_query proj_data pub_proj_data =
     (case filter (\<lambda>c. c \<notin> set proj_coll_columns) [''proj'', ''creator'', ''owner''] of
        [] \<Rightarrow> Returns (report_volumes proj_data pub_proj_data)
      | c # cs \<Rightarrow> Raises (Exn ''ProgrammingError'' (''column '' @ c @ '' does not exist'')))"

section \<open>The pipeline\<close>

fun bind_result :: "'a result \<Rightarrow> ('a \<Rightarrow> 'b result) \<Rightarrow> 'b result" where
  "bind_result (Returns x) f = f x"
| "bind_result (Raises e) f = Raises e"
| "bind_result Beyond f = Beyond"

definition gen_report :: "catalog \<Rightarrow> string \<Rightarrow> string list \<Rightarrow> report_row list result" where
  "gen_report cat zone root_resources =
     bind_result (create_store_resc_table (resc_main cat) root_resources) (\<lambda>store_resc.
     bind_result (create_proj_coll_table (coll_main cat) zone) (\<lambda>proj_coll.
     let proj_data = create_proj_data_table proj_coll (data_main cat) store_resc in
     bind_result (create_pub_obj_table (objt_access cat) (user_main cat)) (\<lambda>pub_obj.
     let pub_proj_data = create_pub_proj_data_table proj_data pub_obj in
     final_query proj_data pub_proj_data)))"

text \<open>
  \<open>get_local_zone\<close>: \<open>fetchone\<close> gives \<open>None\<close> when the catalog has no local zone, and
  indexing \<open>None\<close> raises a \<open>TypeError\<close>.
\<close>

definition get_local_zone :: "catalog \<Rightarrow> string result" where
  "get_local_zone cat =
     (case filter (\<lambda>z. zone_type_name z = ''local'') (zone_main cat) of
        [] \<Rightarrow> Raises (Exn ''TypeError'' ''NoneType object is not subscriptable'')
      | z # zs \<Rightarrow> Returns (zone_name z))"

text \<open>The two calls of \<open>main\<close> that make the report: the zone, then the report for it.\<close>

definition pipeline :: "catalog \<Rightarrow> string list \<Rightarrow> report_row list result" where
  "pipeline cat root_resources =
     bind_result (get_local_zone cat) (\<lambda>local_zone. gen_report cat local_zone root_resources)"

text \<open>
  The temporary tables \<open>proj_data\<close> and \<open>pub_proj_data\<close> of \<open>gen_report\<close> as they stand
  when the final query runs, and the volume columns that query computes from them.
\<close>

definition temp_tables ::
  "catalog \<Rightarrow> string \<Rightarrow> string list \<Rightarrow> (proj_data_row list \<times> pub_proj_data_row list) result" where
  "temp_tables cat zone root_resources =
     bind_result (create_store_resc_table (resc_main cat) root_resources) (\<lambda>store_resc.
     bind_result (create_proj_coll_table (coll_main cat) zone) (\<lambda>proj_coll.
     let proj_data = create_proj_data_table proj_coll (data_main cat) store_resc in
     bind_result (create_pub_obj_table (objt_access cat) (user_main cat)) (\<lambda>pub_obj.
     Returns (proj_data, create_pub_proj_data_table proj_data pub_obj))))"

definition volumes_of :: "catalog \<Rightarrow> string \<Rightarrow> string list \<Rightarrow> report_row list result" where
  "volumes_of cat zone root_resources =
     bind_result (temp_tables cat zone root_resources) (\<lambda>(proj_data, pub_proj_data).
       Returns (report_volumes proj_data pub_proj_data))"

section \<open>Notions used to state the properties of the volumes\<close>

text \<open>
  The number of rows of \<open>proj_data\<close> with the data identifier of a row: the replicas of
  that data object on the selected resources.
\<close>

definition replicas :: "proj_data_row list \<Rightarrow> proj_data_row \<Rightarrow> nat" where
  "replicas proj_data a = length (filter (\<lambda>r. pd_data_id r = pd_data_id a) proj_data)"

text \<open>
  In the catalog the replicas of a data object lie in one collection: rows of \<open>proj_data\<close>
  with the same data identifier have the same collection and project.
\<close>

definition one_collection :: "proj_data_row list \<Rightarrow> bool" where
  "one_collection proj_data \<longleftrightarrow>
     (\<forall>a\<in>set proj_data. \<forall>b\<in>set proj_data.
        pd_data_id a = pd_data_id b \<longrightarrow> pd_coll_id a = pd_coll_id b \<and> pd_proj a = pd_proj b)"

definition project_rows :: "string \<Rightarrow> proj_data_row list \<Rightarrow> proj_data_row list" where
  "project_rows proj proj_data = filter (\<lambda>a. pd_proj a = proj) proj_data"

text \<open>A pattern without \<open>%\<close> matches a string of its length, character by character.\<close>

definition like_literal :: "string \<Rightarrow> string \<Rightarrow> bool" where
  "like_literal p s = list_all2 (\<lambda>a b. a = CHR ''_'' \<or> a = b) p s"

section \<open>The scenarios of the specification and other catalogs\<close>

text \<open>
  The resources of the scenario of the specification: a coordinating resource with one
  storage child, and a resource outside that hierarchy.
\<close>

definition scenario_rescs :: "r_resc_main list" where
  "scenario_rescs =
     [\<lparr>resc_id = 1, resc_name = ''resA'', resc_parent = [], resc_net = ''EMPTY_RESC_HOST''\<rparr>,
      \<lparr>resc_id = 2, resc_name = ''resA-leaf'', resc_parent = ''1'', resc_net = ''data.example.org''\<rparr>,
      \<lparr>resc_id = 3, resc_name = ''resB'', resc_parent = [], resc_net = ''other.example.org''\<rparr>]"



text \<open>
  One project collection with one data object of \<open>2^30\<close> bytes on the storage child of
  \<open>resA\<close>; the collection and the data object are public.  (The owner of a collection is
  not a column the queries read.)
\<close>

definition scenario :: catalog where
  "scenario = \<lparr>resc_main = scenario_rescs,
     coll_main = [\<lparr>coll_id = 100, coll_name = ''/zoneX/home/shared/proj1''\<rparr>],
     data_main = [\<lparr>data_id = 200, data_coll_id = 100, data_size = 2 ^ 30, data_resc_id = 2\<rparr>],
     objt_access = [\<lparr>object_id = 100, access_user_id = 5\<rparr>, \<lparr>object_id = 200, access_user_id = 5\<rparr>,
                    \<lparr>object_id = 100, access_user_id = 7\<rparr>],
     user_main = [\<lparr>user_id = 5, user_name = ''public''\<rparr>, \<lparr>user_id = 7, user_name = ''alice''\<rparr>],
     zone_main = [\<lparr>zone_name = ''zoneX'', zone_type_name = ''local''\<rparr>]\<rparr>"

text \<open>
  The same project on a coordinating resource with two storage children, the data object
  having one replica on each child: \<open>r_data_main\<close> has one row for each replica.
\<close>

definition replica_rescs :: "r_resc_main list" where
  "replica_rescs =
     [\<lparr>resc_id = 1, resc_name = ''resA'', resc_parent = [], resc_net = ''EMPTY_RESC_HOST''\<rparr>,
      \<lparr>resc_id = 2, resc_name = ''resA-leaf1'', resc_parent = ''1'', resc_net = ''data1.example.org''\<rparr>,
      \<lparr>resc_id = 4, resc_name = ''resA-leaf2'', resc_parent = ''1'', resc_net = ''data2.example.org''\<rparr>]"

definition replica_scenario :: catalog where
  "replica_scenario = scenario\<lparr>resc_main := replica_rescs,
     data_main := [\<lparr>data_id = 200, data_coll_id = 100, data_size = 2 ^ 30, data_resc_id = 2\<rparr>,
                   \<lparr>data_id = 200, data_coll_id = 100, data_size = 2 ^ 30, data_resc_id = 4\<rparr>]\<rparr>"

definition private_replica_scenario :: catalog where
  "private_replica_scenario = replica_scenario\<lparr>objt_access := [\<lparr>object_id = 100, access_user_id = 7\<rparr>]\<rparr>"

text \<open>Collections of a project whose name differs from \<open>commons_repo\<close> in one character.\<close>

definition commons_dash_colls :: "r_coll_main list" where
  "commons_dash_colls =
     [\<lparr>coll_id = 10, coll_name = ''/zoneX/home/shared/commons-repo''\<rparr>,
      \<lparr>coll_id = 11, coll_name = ''/zoneX/home/shared/commons-repo/data''\<rparr>,
      \<lparr>coll_id = 12, coll_name = ''/zoneX/home/shared/proj1''\<rparr>]"

text \<open>The scenario without a local zone.\<close>

definition no_zone_scenario :: catalog where
  "no_zone_scenario = scenario\<lparr>zone_main := []\<rparr>"

text \<open>
  The scenario with the public entry of the data object removed, and with that of the
  collection removed.
\<close>

definition private_object_scenario :: catalog where
  "private_object_scenario = scenario\<lparr>objt_access :=
     [\<lparr>object_id = 100, access_user_id = 5\<rparr>, \<lparr>object_id = 100, access_user_id = 7\<rparr>]\<rparr>"

definition private_collection_scenario :: catalog where
  "private_collection_scenario = scenario\<lparr>objt_access :=
     [\<lparr>object_id = 200, access_user_id = 5\<rparr>, \<lparr>object_id = 100, access_user_id = 7\<rparr>]\<rparr>"

text \<open>A collection in the trash without the timestamp attribute.\<close>

definition trashed_coll :: entry where
  "trashed_coll = \<lparr>entry_path = ''/zoneX/trash/orphan'',
     entry_metadata = [\<lparr>avu_name = ''ipc::UUID'', avu_value = ''abc'', avu_units = None\<rparr>]\<rparr>"

text \<open>
  Two resources listed under one identifier, one of them coordinating, and a collection
  listed twice: what the keys of \<open>r_resc_main\<close> and \<open>r_coll_main\<close> exclude.
\<close>

definition shared_id_rescs :: "r_resc_main list" where
  "shared_id_rescs =
     [\<lparr>resc_id = 1, resc_name = ''resA'', resc_parent = [], resc_net = ''data.example.org''\<rparr>,
      \<lparr>resc_id = 1, resc_name = ''resB'', resc_parent = [], resc_net = ''EMPTY_RESC_HOST''\<rparr>,
      \<lparr>resc_id = 2, resc_name = ''resB-leaf'', resc_parent = ''1'', resc_net = ''leaf.example.org''\<rparr>]"

definition twice_listed_colls :: "r_coll_main list" where
  "twice_listed_colls =
     [\<lparr>coll_id = 100, coll_name = ''/zoneX/home/shared/proj1''\<rparr>,
      \<lparr>coll_id = 100, coll_name = ''/zoneX/home/shared/proj1''\<rparr>]"

section \<open>Properties of the trash tagging\<close>

lemma meta_setitem_has_key: "avu_name a = k \<Longrightarrow> k \<in> set (meta_keys (meta_setitem k a m))"
  by (simp add: meta_keys_def meta_setitem_def)

lemma digit_char_values:
  "digit_char 0 = CHR ''0''" "digit_char 1 = CHR ''1''" "digit_char 2 = CHR ''2''"
  "digit_char 3 = CHR ''3''" "digit_char 4 = CHR ''4''" "digit_char 5 = CHR ''5''"
  "digit_char 6 = CHR ''6''" "digit_char 7 = CHR ''7''" "digit_char 8 = CHR ''8''"
  "digit_char 9 = CHR ''9''" "digit_char (Suc 0) = CHR ''1''"
  by code_simp+

text \<open>
  C10. Tagging is idempotent: a second application of \<open>add_coll_avu\<close> or \<open>add_obj_avu\<close>,
  at whatever later time, leaves the entry as the first application left it, so the values
  of \<open>ipc::trash_timestamp\<close> are those of the first application.  An entry that already
  has the attribute is returned as it is, and one without it gets the single value \<open>0\<close>
  followed by the seconds of the clock.
\<close>

theorem trash_tagging_idempotent:
  "add_coll_avu t2 (add_coll_avu t1 e) = add_coll_avu t1 e
   \<and> add_obj_avu t2 (add_obj_avu t1 e) = add_obj_avu t1 e
   \<and> meta_values ''ipc::trash_timestamp'' (entry_metadata (add_coll_avu t2 (add_coll_avu t1 e)))
       = meta_values ''ipc::trash_timestamp'' (entry_metadata (add_coll_avu t1 e))
   \<and> meta_values ''ipc::trash_timestamp'' (entry_metadata (add_obj_avu t2 (add_obj_avu t1 e)))
       = meta_values ''ipc::trash_timestamp'' (entry_metadata (add_obj_avu t1 e))
   \<and> (''ipc::trash_timestamp'' \<in> set (meta_keys (entry_metadata e))
        \<longrightarrow> add_coll_avu t1 e = e \<and> add_obj_avu t1 e = e)
   \<and> (''ipc::trash_timestamp'' \<notin> set (meta_keys (entry_metadata e))
        \<longrightarrow> meta_values ''ipc::trash_timestamp'' (entry_metadata (add_coll_avu t1 e)) = [''0'' @ str_int t1]
          \<and> meta_values ''ipc::trash_timestamp'' (entry_metadata (add_obj_avu t1 e)) = [''0'' @ str_int t1])"
proof -
  have k: "''ipc::trash_timestamp'' \<in> set (meta_keys (entry_metadata (add_coll_avu t1 e)))"
    by (simp add: add_coll_avu_def Let_def iRODSMeta_def meta_setitem_has_key)
  have k': "''ipc::trash_timestamp'' \<in> set (meta_keys (entry_metadata (add_obj_avu t1 e)))"
    by (simp add: add_obj_avu_def Let_def iRODSMeta_def meta_setitem_has_key)
  have c: "add_coll_avu t2 (add_coll_avu t1 e) = add_coll_avu t1 e"
    using k by (subst add_coll_avu_def) simp
  have d: "add_obj_avu t2 (add_obj_avu t1 e) = add_obj_avu t1 e"
    using k' by (subst add_obj_avu_def) simp
  have u: "''ipc::trash_timestamp'' \<in> set (meta_keys (entry_metadata e))
        \<longrightarrow> add_coll_avu t1 e = e \<and> add_obj_avu t1 e = e"
    by (simp add: add_coll_avu_def add_obj_avu_def)
  have f: "filter (\<lambda>x. avu_name x = ''ipc::trash_timestamp'') m = []"
    if "''ipc::trash_timestamp'' \<notin> set (meta_keys m)" for m
  proof -
    have "\<forall>x\<in>set m. avu_name x \<noteq> ''ipc::trash_timestamp''"
      using that unfolding meta_keys_def by (metis image_eqI list.set_map)
    then show ?thesis by (simp add: filter_empty_conv)
  qed
  have v: "''ipc::trash_timestamp'' \<notin> set (meta_keys (entry_metadata e))
        \<longrightarrow> meta_values ''ipc::trash_timestamp'' (entry_metadata (add_coll_avu t1 e)) = [''0'' @ str_int t1]
          \<and> meta_values ''ipc::trash_timestamp'' (entry_metadata (add_obj_avu t1 e)) = [''0'' @ str_int t1]"
  proof
    assume n: "''ipc::trash_timestamp'' \<notin> set (meta_keys (entry_metadata e))"
    have g: "filter (\<lambda>x. avu_name x = ''ipc::trash_timestamp'')
               (filter (\<lambda>x. avu_name x \<noteq> ''ipc::trash_timestamp'') (entry_metadata e)) = []"
      by (simp add: filter_empty_conv)
    show "meta_values ''ipc::trash_timestamp'' (entry_metadata (add_coll_avu t1 e)) = [''0'' @ str_int t1]
          \<and> meta_values ''ipc::trash_timestamp'' (entry_metadata (add_obj_avu t1 e)) = [''0'' @ str_int t1]"
      using n g
      by (simp add: add_coll_avu_def add_obj_avu_def Let_def iRODSMeta_def meta_setitem_def
            meta_values_def)
  qed
  show ?thesis using c d u v by simp
qed

theorem trash_tagging_idempotent_witness:
  "''ipc::trash_timestamp'' \<notin> set (meta_keys (entry_metadata trashed_coll))
   \<and> meta_values ''ipc::trash_timestamp'' (entry_metadata (add_coll_avu 1700000000 trashed_coll))
       = [''01700000000'']
   \<and> ''ipc::trash_timestamp'' \<in> set (meta_keys (entry_metadata (add_coll_avu 1700000000 trashed_coll)))
   \<and> add_coll_avu 1800000000 (add_coll_avu 1700000000 trashed_coll) = add_coll_avu 1700000000 trashed_coll"
proof -
  have h: "''ipc::trash_timestamp'' \<notin> set (meta_keys (entry_metadata trashed_coll))"
    by (simp add: trashed_coll_def meta_keys_def)
  have s: "''0'' @ str_int 1700000000 = ''01700000000''"
    by (simp add: str_int_def str_nat.simps digit_char_values)
  have k: "''ipc::trash_timestamp'' \<in> set (meta_keys (entry_metadata (add_coll_avu 1700000000 trashed_coll)))"
    by (simp add: add_coll_avu_def Let_def iRODSMeta_def meta_setitem_has_key)
  note t = trash_tagging_idempotent [of 1800000000 1700000000 trashed_coll]
  have a: "meta_values ''ipc::trash_timestamp'' (entry_metadata (add_coll_avu 1700000000 trashed_coll))
       = [''0'' @ str_int 1700000000]"
    using t h by (elim conjE) (erule (1) impE [THEN conjunct1])
  have b: "add_coll_avu 1800000000 (add_coll_avu 1700000000 trashed_coll) = add_coll_avu 1700000000 trashed_coll"
    using t by (elim conjE)
  show ?thesis using h k a b by (simp only: s simp_thms)
qed

section \<open>Properties of the resource resolver\<close>





lemma resc_closure_sound:
  assumes "P result"
    and "\<And>res w. P res \<Longrightarrow> set w \<subseteq> set res \<Longrightarrow> P (res @ hier_new rescs res w)"
    and "set working \<subseteq> set result"
  shows "P (resc_closure rescs result working)"
  using assms
proof (induction rescs result working rule: resc_closure.induct)
  case (1 rescs result working)
  show ?case
  proof (cases "hier_new rescs result working = []")
    case True
    then show ?thesis using 1(2) by (subst resc_closure.simps) (simp add: Let_def)
  next
    case False
    have "P (resc_closure rescs (result @ hier_new rescs result working) (hier_new rescs result working))"
      using 1(1) [OF refl False] 1(2,3,4) by simp
    then show ?thesis using False by (subst resc_closure.simps) (simp add: Let_def)
  qed
qed










lemma resc_hier_distinct: "distinct (resc_hier rescs names)"
  unfolding resc_hier_def
proof (rule resc_closure_sound [where P = "distinct :: hier_row list \<Rightarrow> bool"])
  show "distinct (hier_seed rescs names)" by (simp add: hier_seed_def)
next
  fix res w :: "hier_row list"
  assume "distinct res"
  then show "distinct (res @ hier_new rescs res w)"
    by (auto simp: hier_new_def)
qed simp





text \<open>
  A name that \<open>sqlalchemy.text\<close> reads as a bind parameter makes the query raise, and with
  two resources under one identifier the children of the coordinating one are not reached
  when the other one was selected.
\<close>

lemma bind_parameter_name_raises:
  "create_store_resc_table scenario_rescs ['':resA'']
     = Raises (Exn ''StatementError'' ''A value is required for bind parameter'')"
  by code_simp

lemma shared_resource_id_not_closed:
  "create_store_resc_table shared_id_rescs [''resA''] = Returns [1]
   \<and> resc_id (shared_id_rescs ! 1) = 1 \<and> resc_net (shared_id_rescs ! 1) = ''EMPTY_RESC_HOST''
   \<and> resc_parent (shared_id_rescs ! 2) = str_int 1 \<and> resc_id (shared_id_rescs ! 2) = 2"
  by code_simp







section \<open>Properties of the report\<close>

lemma gen_report_temp_tables:
  "gen_report cat zone root_resources =
     bind_result (temp_tables cat zone root_resources) (\<lambda>(proj_data, pub_proj_data).
       final_query proj_data pub_proj_data)"
proof -
  have b: "bind_result (bind_result m f) g = bind_result m (\<lambda>x. bind_result (f x) g)" for m :: "'x result"
    and f :: "'x \<Rightarrow> 'y result" and g :: "'y \<Rightarrow> 'z result"
    by (cases m) simp_all
  show ?thesis
    by (simp add: gen_report_def temp_tables_def b Let_def)
qed

lemma final_query_raises:
  "final_query proj_data pub_proj_data = Raises (Exn ''ProgrammingError'' ''column creator does not exist'')"
  by (simp add: final_query_def proj_coll_columns_def)

text \<open>
  C2. The claim expects that the report gives, for each project, the creators and owners of
  its collections joined with \<open>; \<close>.  On the scenario of the specification the code
  raises: the final query aggregates the columns \<open>creator\<close> and \<open>owner\<close> of
  \<open>proj_coll\<close>, which \<open>create_proj_coll_table\<close> neither creates nor fills, while the
  volume columns of that query are as the scenario expects.  No call of \<open>gen_report\<close>
  returns rows.
\<close>

theorem creator_owner_columns_missing:
  "pipeline scenario [''resA''] = Raises (Exn ''ProgrammingError'' ''column creator does not exist'')
   \<and> volumes_of scenario ''zoneX'' [''resA'']
       = Returns [\<lparr>Total = 1, Public = 1, Private = 0, Project = ''proj1''\<rparr>]
   \<and> gen_report cat zone root_resources \<noteq> Returns rows"
proof -
  have a: "pipeline scenario [''resA''] = Raises (Exn ''ProgrammingError'' ''column creator does not exist'')"
    by code_simp
  have b: "volumes_of scenario ''zoneX'' [''resA'']
       = Returns [\<lparr>Total = 1, Public = 1, Private = 0, Project = ''proj1''\<rparr>]"
    by code_simp
  have c: "gen_report cat zone root_resources \<noteq> Returns rows"
    by (cases "temp_tables cat zone root_resources")
       (auto simp: gen_report_temp_tables final_query_raises)
  show ?thesis using a b c by simp
qed

text \<open>
  C3. The claim expects a report in which every project has \<open>0 \<le> Public \<le> Total\<close> and
  a project without public data has Public 0.  On the scenario of the specification whose
  data object is not public, the temporary tables hold the row of the project and no public
  row, and then the final query is rejected for the missing columns of \<open>proj_coll\<close>: the
  project gets no row at all, with Public 0 or otherwise.
\<close>

theorem no_row_for_private_project:
  "temp_tables private_object_scenario ''zoneX'' [''resA'']
     = Returns ([\<lparr>pd_proj = ''proj1'', pd_coll_id = 100, pd_data_id = 200, pd_data_size = 2 ^ 30\<rparr>], [])
   \<and> pipeline private_object_scenario [''resA'']
       = Raises (Exn ''ProgrammingError'' ''column creator does not exist'')"
  by code_simp

text \<open>
  C8. The claim expects Total 1.000, Public 1.000 and Private 0.000 for a single public data
  object of \<open>2^30\<close> bytes.  On that catalog the temporary tables hold the row of the data
  object and its public row, and then the final query is rejected for the missing columns of
  \<open>proj_coll\<close>: no volume is divided, rounded or reported.
\<close>

theorem no_row_for_one_gibibyte:
  "temp_tables scenario ''zoneX'' [''resA'']
     = Returns ([\<lparr>pd_proj = ''proj1'', pd_coll_id = 100, pd_data_id = 200, pd_data_size = 2 ^ 30\<rparr>],
                [\<lparr>pp_proj = ''proj1'', pp_data_id = 200, pp_data_size = 2 ^ 30\<rparr>])
   \<and> get_local_zone scenario = Returns ''zoneX''
   \<and> gen_report scenario ''zoneX'' [''resA'']
       = Raises (Exn ''ProgrammingError'' ''column creator does not exist'')"
  by code_simp

text \<open>
  C6. The claim expects that a collection outside \<open>commons_repo\<close> and below the shared root
  is assigned its first path segment.  The \<open>_\<close> of \<open>commons_repo\<close> is a wildcard of
  \<open>SIMILAR TO\<close>, so the collections of the project \<open>commons-repo\<close> match the
  exclusion pattern and are assigned to no project.
\<close>

theorem commons_repo_wildcard:
  "create_proj_coll_table commons_dash_colls ''zoneX'' = Returns [\<lparr>pc_proj = ''proj1'', pc_coll_id = 12\<rparr>]
   \<and> similar_to_commons_repo ''zoneX'' ''/zoneX/home/shared/commons-repo''
   \<and> similar_to_commons_repo ''zoneX'' ''/zoneX/home/shared/commons-repo/data''
   \<and> take (length ''/zoneX/home/shared/commons_repo'') ''/zoneX/home/shared/commons-repo/data''
       \<noteq> ''/zoneX/home/shared/commons_repo''"
  by code_simp

text \<open>
  C7, as stated, fails: with an empty list of root resources the pipeline raises the
  \<open>ProgrammingError\<close> of the database for the empty \<open>IN ()\<close>, and without a local zone
  a \<open>TypeError\<close>; neither is an \<open>InvalidArgument\<close>.
\<close>

theorem no_invalid_argument_counterexample:
  "pipeline scenario [] = Raises (Exn ''ProgrammingError'' ''syntax error at or near )'')
   \<and> exn_class (Exn ''ProgrammingError'' ''syntax error at or near )'') \<noteq> ''InvalidArgument''
   \<and> pipeline no_zone_scenario [''resA'']
       = Raises (Exn ''TypeError'' ''NoneType object is not subscriptable'')
   \<and> exn_class (Exn ''TypeError'' ''NoneType object is not subscriptable'') \<noteq> ''InvalidArgument''"
  by code_simp

lemma create_store_resc_table_empty:
  "create_store_resc_table rescs [] = Raises (Exn ''ProgrammingError'' ''syntax error at or near )'')"
proof -
  have "literal_text (''('' @ resources_str [] @ '')'')" by code_simp
  then show ?thesis by (simp add: create_store_resc_table_def resources_str_def literal_text_def)
qed

text \<open>
  C7, amended. For every catalog, the pipeline raises a \<open>TypeError\<close> when the catalog has
  no local zone, whatever the root resources, and otherwise raises the \<open>ProgrammingError\<close>
  of the database when the list of root resources is empty; with an empty list it never
  returns rows.
\<close>

theorem pipeline_fails_without_roots_or_zone:
  "(filter (\<lambda>z. zone_type_name z = ''local'') (zone_main cat) = []
      \<longrightarrow> pipeline cat root_resources = Raises (Exn ''TypeError'' ''NoneType object is not subscriptable''))
   \<and> (filter (\<lambda>z. zone_type_name z = ''local'') (zone_main cat) \<noteq> []
      \<longrightarrow> pipeline cat [] = Raises (Exn ''ProgrammingError'' ''syntax error at or near )''))
   \<and> (\<forall>rows. pipeline cat [] \<noteq> Returns rows)"
proof (cases "filter (\<lambda>z. zone_type_name z = ''local'') (zone_main cat)")
  case Nil
  then show ?thesis by (simp add: pipeline_def get_local_zone_def)
next
  case (Cons z zs)
  then show ?thesis
    by (simp add: pipeline_def get_local_zone_def gen_report_def create_store_resc_table_empty)
qed

theorem pipeline_fails_without_roots_or_zone_witness:
  "filter (\<lambda>z. zone_type_name z = ''local'') (zone_main no_zone_scenario) = []
   \<and> pipeline no_zone_scenario [''resA'']
       = Raises (Exn ''TypeError'' ''NoneType object is not subscriptable'')
   \<and> filter (\<lambda>z. zone_type_name z = ''local'') (zone_main scenario) \<noteq> []
   \<and> pipeline scenario [] = Raises (Exn ''ProgrammingError'' ''syntax error at or near )'')"
proof -
  have h1: "filter (\<lambda>z. zone_type_name z = ''local'') (zone_main no_zone_scenario) = []"
    by (simp add: no_zone_scenario_def)
  have h2: "filter (\<lambda>z. zone_type_name z = ''local'') (zone_main scenario) \<noteq> []"
    by (simp add: scenario_def)
  show ?thesis
    using h1 h2 pipeline_fails_without_roots_or_zone [of "no_zone_scenario" "[''resA'']"]
      pipeline_fails_without_roots_or_zone [of scenario]
    by blast
qed

section \<open>The sums of the final query\<close>

lemma sum_list_filter_indicator:
  "sum_list (map f (filter P xs)) = sum_list (map (\<lambda>x. if P x then f x else (0::int)) xs)"
  by (induction xs) simp_all

lemma double_count:
  "sum_list (map (\<lambda>a. sum_list (map f (filter (\<lambda>r. k r = k a) C))) B)
   = sum_list (map (\<lambda>r. (f r :: int) * int (length (filter (\<lambda>a. k a = k r) B))) C)"
proof (induction B)
  case Nil
  then show ?case by simp
next
  case (Cons b B)
  have "sum_list (map (\<lambda>r. f r * int (length (filter (\<lambda>a. k a = k r) (b # B)))) C)
      = sum_list (map (\<lambda>r. (if k r = k b then f r else 0)
                           + f r * int (length (filter (\<lambda>a. k a = k r) B))) C)"
    by (rule arg_cong [where f = sum_list], rule map_cong) (auto simp: algebra_simps)
  also have "\<dots> = sum_list (map (\<lambda>r. if k r = k b then f r else 0) C)
      + sum_list (map (\<lambda>r. f r * int (length (filter (\<lambda>a. k a = k r) B))) C)"
    by (simp add: sum_list_addf)
  finally show ?case
    using Cons by (simp add: sum_list_filter_indicator)
qed

lemma coalesce_sql_sum:
  "coalesce (sql_sum vs) 0 = sum_list (map (\<lambda>v. case v of None \<Rightarrow> 0 | Some x \<Rightarrow> x) vs)"
proof -
  have a: "coalesce (case xs of [] \<Rightarrow> None | y # ys \<Rightarrow> Some (sum_list (y # ys))) 0 = sum_list xs"
    for xs :: "int list"
    by (cases xs) (simp_all add: coalesce_def)
  have b: "sum_list (concat (map (\<lambda>v. case v of None \<Rightarrow> [] | Some x \<Rightarrow> [x]) vs))
      = sum_list (map (\<lambda>v. case v of None \<Rightarrow> 0 | Some x \<Rightarrow> x) vs)"
    by (induction vs) (auto split: option.splits)
  show ?thesis
    unfolding sql_sum_def a using b by simp
qed

lemma pub_vol_sum:
  "pub_vol g = sum_list (map (\<lambda>(a, p). case p of None \<Rightarrow> 0 | Some q \<Rightarrow> pp_data_size q) g)"
proof -
  have "map (\<lambda>v. case v of None \<Rightarrow> 0 | Some x \<Rightarrow> x) (map (\<lambda>(a, p). map_option pp_data_size p) g)
      = map (\<lambda>(a, p). case p of None \<Rightarrow> 0 | Some q \<Rightarrow> pp_data_size q) g"
    by (auto split: option.splits)
  then show ?thesis
    by (simp add: pub_vol_def coalesce_sql_sum del: map_map)
qed

lemma group_rows_left_join:
  "group_rows proj (left_join A B) = left_join (project_rows proj A) B"
  by (induction A) (auto simp: group_rows_def left_join_def project_rows_def split: list.splits)

lemma tot_vol_left_join:
  "tot_vol (left_join A B)
   = sum_list (map (\<lambda>a. pd_data_size a
       * int (max 1 (length (filter (\<lambda>p. pp_data_id p = pd_data_id a) B)))) A)"
proof (induction A)
  case Nil
  then show ?case by (simp add: tot_vol_def left_join_def)
next
  case (Cons a A)
  have one: "tot_vol (left_join [a] B)
      = pd_data_size a * int (max 1 (length (filter (\<lambda>p. pp_data_id p = pd_data_id a) B)))"
    by (cases "filter (\<lambda>p. pp_data_id p = pd_data_id a) B")
       (simp_all add: tot_vol_def left_join_def comp_def sum_list_triv algebra_simps)
  have app: "tot_vol (left_join (a # A) B) = tot_vol (left_join [a] B) + tot_vol (left_join A B)"
    by (simp add: tot_vol_def left_join_def)
  show ?case using Cons one app by simp
qed

lemma pub_vol_left_join:
  "pub_vol (left_join A B)
   = sum_list (map (\<lambda>a. sum_list (map pp_data_size (filter (\<lambda>p. pp_data_id p = pd_data_id a) B))) A)"
proof (induction A)
  case Nil
  then show ?case by (simp add: pub_vol_sum left_join_def)
next
  case (Cons a A)
  have one: "pub_vol (left_join [a] B)
      = sum_list (map pp_data_size (filter (\<lambda>p. pp_data_id p = pd_data_id a) B))"
    by (cases "filter (\<lambda>p. pp_data_id p = pd_data_id a) B")
       (simp_all add: pub_vol_sum left_join_def comp_def)
  have app: "pub_vol (left_join (a # A) B) = pub_vol (left_join [a] B) + pub_vol (left_join A B)"
    by (simp add: pub_vol_sum left_join_def)
  show ?case using Cons one app by simp
qed

lemma one_collection_is_pub:
  assumes "one_collection A" and "a \<in> set A" and "r \<in> set A" and "pd_data_id r = pd_data_id a"
  shows "is_pub S r = is_pub S a" and "pd_proj r = pd_proj a"
  using assms unfolding one_collection_def is_pub_def by metis+

lemma matches_pub:
  assumes "one_collection A" and "a \<in> set A"
  shows "filter (\<lambda>p. pp_data_id p = pd_data_id a) (create_pub_proj_data_table A S)
     = (if is_pub S a then map to_pub (filter (\<lambda>r. pd_data_id r = pd_data_id a) A) else [])"
proof -
  have "filter (\<lambda>p. pp_data_id p = pd_data_id a) (create_pub_proj_data_table A S)
      = map to_pub (filter (\<lambda>r. pd_data_id r = pd_data_id a \<and> is_pub S r) A)"
    by (simp add: create_pub_proj_data_table_def filter_map comp_def to_pub_def conj_commute)
  also have "filter (\<lambda>r. pd_data_id r = pd_data_id a \<and> is_pub S r) A
      = filter (\<lambda>r. pd_data_id r = pd_data_id a \<and> is_pub S a) A"
    by (rule filter_cong [OF refl]) (use one_collection_is_pub(1) [OF assms] in blast)
  finally show ?thesis by simp
qed

lemma replicas_pos: "a \<in> set A \<Longrightarrow> 0 < replicas A a"
  unfolding replicas_def by (induction A) auto

lemma tot_vol_one_collection:
  assumes "one_collection A"
  shows "tot_vol (group_rows proj (left_join A (create_pub_proj_data_table A S)))
    = sum_list (map (\<lambda>a. pd_data_size a * int (if is_pub S a then replicas A a else 1))
                    (project_rows proj A))"
proof -
  have "pd_data_size a * int (max 1 (length (filter (\<lambda>p. pp_data_id p = pd_data_id a)
            (create_pub_proj_data_table A S))))
      = pd_data_size a * int (if is_pub S a then replicas A a else 1)"
    if "a \<in> set (project_rows proj A)" for a
  proof -
    have a: "a \<in> set A" using that by (simp add: project_rows_def)
    show ?thesis
      using matches_pub [OF assms a, of S] replicas_pos [OF a]
      by (auto simp: replicas_def max_def Suc_le_eq)
  qed
  then show ?thesis
    unfolding group_rows_left_join tot_vol_left_join
    by (intro arg_cong [where f = sum_list] map_cong refl)
qed

lemma pub_vol_one_collection_inner:
  assumes "one_collection A"
  shows "pub_vol (group_rows proj (left_join A (create_pub_proj_data_table A S)))
    = sum_list (map (\<lambda>a. sum_list (map pd_data_size (filter (\<lambda>r. pd_data_id r = pd_data_id a) A)))
                    (filter (is_pub S) (project_rows proj A)))"
proof -
  have "sum_list (map pp_data_size (filter (\<lambda>p. pp_data_id p = pd_data_id a)
            (create_pub_proj_data_table A S)))
      = (if is_pub S a then sum_list (map pd_data_size (filter (\<lambda>r. pd_data_id r = pd_data_id a) A)) else 0)"
    if "a \<in> set (project_rows proj A)" for a
  proof -
    have a: "a \<in> set A" using that by (simp add: project_rows_def)
    show ?thesis
      using matches_pub [OF assms a, of S] by (simp add: comp_def to_pub_def)
  qed
  then have "pub_vol (group_rows proj (left_join A (create_pub_proj_data_table A S)))
      = sum_list (map (\<lambda>a. if is_pub S a
           then sum_list (map pd_data_size (filter (\<lambda>r. pd_data_id r = pd_data_id a) A)) else 0)
           (project_rows proj A))"
    unfolding group_rows_left_join pub_vol_left_join
    by (intro arg_cong [where f = sum_list] map_cong refl)
  then show ?thesis by (simp only: sum_list_filter_indicator [where P = "is_pub S"])
qed

lemma pub_vol_one_collection:
  assumes "one_collection A"
  shows "pub_vol (group_rows proj (left_join A (create_pub_proj_data_table A S)))
    = sum_list (map (\<lambda>a. pd_data_size a * int (replicas A a))
                    (filter (is_pub S) (project_rows proj A)))"
proof -
  let ?B = "filter (is_pub S) (project_rows proj A)"
  have same: "filter (\<lambda>r. pd_data_id r = pd_data_id a) A = filter (\<lambda>r. pd_data_id r = pd_data_id a) ?B"
    if "a \<in> set ?B" for a
  proof -
    have a: "a \<in> set A" "is_pub S a" "pd_proj a = proj"
      using that by (auto simp: project_rows_def)
    have "filter (\<lambda>r. pd_data_id r = pd_data_id a) ?B
        = filter (\<lambda>r. pd_data_id r = pd_data_id a \<and> is_pub S r \<and> pd_proj r = proj) A"
      by (simp add: project_rows_def conj_commute conj_left_commute)
    also have "\<dots> = filter (\<lambda>r. pd_data_id r = pd_data_id a) A"
      by (rule filter_cong [OF refl])
         (use one_collection_is_pub [OF assms a(1)] a(2,3) in blast)
    finally show ?thesis by simp
  qed
  have same': "length (filter (\<lambda>r. pd_data_id r = pd_data_id a) ?B) = replicas A a"
    if "a \<in> set ?B" for a
    using same [OF that] by (simp add: replicas_def)
  have "pub_vol (group_rows proj (left_join A (create_pub_proj_data_table A S)))
      = sum_list (map (\<lambda>a. sum_list (map pd_data_size (filter (\<lambda>r. pd_data_id r = pd_data_id a) ?B))) ?B)"
    unfolding pub_vol_one_collection_inner [OF assms]
    by (intro arg_cong [where f = sum_list] map_cong refl) (simp only: same)
  also have "\<dots> = sum_list (map (\<lambda>r. pd_data_size r
        * int (length (filter (\<lambda>a. pd_data_id a = pd_data_id r) ?B))) ?B)"
    by (rule double_count)
  also have "\<dots> = sum_list (map (\<lambda>r. pd_data_size r * int (replicas A r)) ?B)"
    by (intro arg_cong [where f = sum_list] map_cong refl) (simp only: same')
  finally show ?thesis .
qed

lemma private_vol_one_collection:
  assumes "one_collection A"
  shows "tot_vol (group_rows proj (left_join A (create_pub_proj_data_table A S)))
       - pub_vol (group_rows proj (left_join A (create_pub_proj_data_table A S)))
    = sum_list (map pd_data_size (filter (\<lambda>a. \<not> is_pub S a) (project_rows proj A)))"
proof -
  have "sum_list (map (\<lambda>a. pd_data_size a * int (if is_pub S a then replicas A a else 1)) xs)
      - sum_list (map (\<lambda>a. pd_data_size a * int (replicas A a)) (filter (is_pub S) xs))
      = sum_list (map pd_data_size (filter (\<lambda>a. \<not> is_pub S a) xs))" for xs
    by (induction xs) auto
  then show ?thesis
    by (simp only: tot_vol_one_collection [OF assms] pub_vol_one_collection [OF assms])
qed

section \<open>The temporary tables and the catalog\<close>

lemma temp_tables_Returns:
  assumes "temp_tables cat zone root_resources = Returns (A, B)"
  obtains store_resc proj_coll pub_obj where
    "create_store_resc_table (resc_main cat) root_resources = Returns store_resc"
    "create_proj_coll_table (coll_main cat) zone = Returns proj_coll"
    "create_pub_obj_table (objt_access cat) (user_main cat) = Returns pub_obj"
    "A = create_proj_data_table proj_coll (data_main cat) store_resc"
    "B = create_pub_proj_data_table A pub_obj"
proof -
  obtain store_resc where s: "create_store_resc_table (resc_main cat) root_resources = Returns store_resc"
    using assms by (cases "create_store_resc_table (resc_main cat) root_resources")
      (simp_all add: temp_tables_def)
  obtain proj_coll where c: "create_proj_coll_table (coll_main cat) zone = Returns proj_coll"
    using assms s by (cases "create_proj_coll_table (coll_main cat) zone")
      (simp_all add: temp_tables_def)
  obtain pub_obj where p: "create_pub_obj_table (objt_access cat) (user_main cat) = Returns pub_obj"
    using assms s c by (cases "create_pub_obj_table (objt_access cat) (user_main cat)")
      (simp_all add: temp_tables_def Let_def)
  have ab: "A = create_proj_data_table proj_coll (data_main cat) store_resc"
      "B = create_pub_proj_data_table A pub_obj"
    using assms s c p by (auto simp: temp_tables_def Let_def)
  show ?thesis by (rule that [OF s c p ab])
qed

lemma proj_coll_distinct:
  assumes "create_proj_coll_table colls zone = Returns proj_coll" and "distinct (map coll_id colls)"
  shows "distinct (map pc_coll_id proj_coll)"
proof -
  have "map pc_coll_id proj_coll
      = map coll_id (filter (\<lambda>c. sql_like (''/'' @ zone @ ''/home/shared/%'') (coll_name c)
                          \<and> \<not> similar_to_commons_repo zone (coll_name c)) colls)"
    using assms(1) by (auto simp: create_proj_coll_table_def comp_def split: if_splits)
  then show ?thesis using assms(2) by (simp add: distinct_map_filter)
qed

lemma proj_data_set:
  "set (create_proj_data_table proj_coll datas store_resc)
   = {\<lparr>pd_proj = pc_proj c, pd_coll_id = pc_coll_id c, pd_data_id = data_id d, pd_data_size = data_size d\<rparr>
      | c d. c \<in> set proj_coll \<and> d \<in> set datas \<and> data_coll_id d = pc_coll_id c
              \<and> data_resc_id d \<in> set store_resc}"
  by (auto simp: create_proj_data_table_def)

lemma proj_data_one_collection:
  assumes "distinct (map pc_coll_id proj_coll)"
    and "\<forall>d\<in>set datas. \<forall>d'\<in>set datas. data_id d = data_id d' \<longrightarrow> data_coll_id d = data_coll_id d'"
  shows "one_collection (create_proj_data_table proj_coll datas store_resc)"
  unfolding one_collection_def
proof (intro ballI impI)
  fix a b
  assume a: "a \<in> set (create_proj_data_table proj_coll datas store_resc)"
    and b: "b \<in> set (create_proj_data_table proj_coll datas store_resc)"
    and eq: "pd_data_id a = pd_data_id b"
  obtain c d where cd: "c \<in> set proj_coll" "d \<in> set datas" "data_coll_id d = pc_coll_id c"
      "a = \<lparr>pd_proj = pc_proj c, pd_coll_id = pc_coll_id c, pd_data_id = data_id d, pd_data_size = data_size d\<rparr>"
    using a unfolding proj_data_set by blast
  obtain c' d' where cd': "c' \<in> set proj_coll" "d' \<in> set datas" "data_coll_id d' = pc_coll_id c'"
      "b = \<lparr>pd_proj = pc_proj c', pd_coll_id = pc_coll_id c', pd_data_id = data_id d', pd_data_size = data_size d'\<rparr>"
    using b unfolding proj_data_set by blast
  have "data_id d = data_id d'" using eq cd(4) cd'(4) by simp
  then have "data_coll_id d = data_coll_id d'" using assms(2) cd(2) cd'(2) by blast
  then have "pc_coll_id c = pc_coll_id c'" using cd(3) cd'(3) by simp
  then have "c = c'"
    using assms(1) cd(1) cd'(1) by (meson distinct_map inj_onD)
  then show "pd_coll_id a = pd_coll_id b \<and> pd_proj a = pd_proj b"
    using cd(4) cd'(4) by simp
qed

section \<open>The public filter\<close>

lemma pub_obj_set:
  assumes "create_pub_obj_table access users = Returns pub_obj"
  shows "set pub_obj = {object_id a | a. a \<in> set access
           \<and> (\<exists>u\<in>set users. user_name u = ''public'' \<and> access_user_id a = user_id u)}"
proof (cases "filter (\<lambda>u. user_name u = ''public'') users")
  case Nil
  then have "\<forall>u\<in>set users. user_name u \<noteq> ''public''"
    by (simp add: filter_empty_conv)
  moreover have "pub_obj = []" using assms Nil by (simp add: create_pub_obj_table_def)
  ultimately show ?thesis by auto
next
  case (Cons u us)
  then have us: "us = []" using assms by (cases us) (simp_all add: create_pub_obj_table_def)
  have p: "pub_obj = map object_id (filter (\<lambda>a. access_user_id a = user_id u) access)"
    using assms Cons us by (simp add: create_pub_obj_table_def)
  have "set (filter (\<lambda>u. user_name u = ''public'') users) = set [u]"
    using Cons us by (simp only:)
  then have "{v \<in> set users. user_name v = ''public''} = {u}"
    by simp
  then have mem: "(v \<in> set users \<and> user_name v = ''public'') = (v = u)" for v
    by blast
  have "(\<exists>v\<in>set users. user_name v = ''public'' \<and> access_user_id a = user_id v)
      \<longleftrightarrow> access_user_id a = user_id u" for a
  proof
    assume "\<exists>v\<in>set users. user_name v = ''public'' \<and> access_user_id a = user_id v"
    then obtain v where "v \<in> set users \<and> user_name v = ''public''" "access_user_id a = user_id v"
      by auto
    then show "access_user_id a = user_id u" by (simp add: mem)
  next
    assume "access_user_id a = user_id u"
    moreover have "u \<in> set users \<and> user_name u = ''public''" by (simp add: mem)
    ultimately show "\<exists>v\<in>set users. user_name v = ''public'' \<and> access_user_id a = user_id v"
      by auto
  qed
  then show ?thesis unfolding p by auto
qed

lemma pub_proj_data_bytes:
  "sum_list (map pp_data_size (filter (\<lambda>p. pp_proj p = proj) (create_pub_proj_data_table A S)))
   = sum_list (map (\<lambda>r. if pd_coll_id r \<in> set S \<and> pd_data_id r \<in> set S then pd_data_size r else 0)
                   (project_rows proj A))"
  by (induction A) (auto simp: create_pub_proj_data_table_def project_rows_def to_pub_def is_pub_def)

lemma left_join_set:
  "(a, p) \<in> set (left_join A B) \<longleftrightarrow>
     a \<in> set A \<and> (case p of None \<Rightarrow> filter (\<lambda>q. pp_data_id q = pd_data_id a) B = []
                    | Some q \<Rightarrow> q \<in> set B \<and> pp_data_id q = pd_data_id a)"
proof -
  have one: "(a, p) \<in> set (case filter (\<lambda>q. pp_data_id q = pd_data_id b) B of
                      [] \<Rightarrow> [(b, None)] | ps \<Rightarrow> map (\<lambda>q. (b, Some q)) ps)
      \<longleftrightarrow> a = b \<and> (case p of None \<Rightarrow> filter (\<lambda>q. pp_data_id q = pd_data_id a) B = []
                    | Some q \<Rightarrow> q \<in> set B \<and> pp_data_id q = pd_data_id a)" for b
  proof (cases "filter (\<lambda>q. pp_data_id q = pd_data_id b) B")
    case Nil
    then show ?thesis by (auto simp: filter_empty_conv split: option.splits)
  next
    case (Cons x xs)
    let ?ps = "filter (\<lambda>q. pp_data_id q = pd_data_id b) B"
    have ne: "?ps \<noteq> []" using Cons by simp
    have "(a, p) \<in> set (case ?ps of [] \<Rightarrow> [(b, None)] | ps \<Rightarrow> map (\<lambda>q. (b, Some q)) ps)
        \<longleftrightarrow> (a, p) \<in> set (map (\<lambda>q. (b, Some q)) ?ps)"
      by (simp only: Cons list.case)
    also have "\<dots> \<longleftrightarrow> a = b \<and> (\<exists>q\<in>set ?ps. p = Some q)"
      by auto
    also have "\<dots> \<longleftrightarrow> a = b \<and> (case p of None \<Rightarrow> filter (\<lambda>q. pp_data_id q = pd_data_id a) B = []
                    | Some q \<Rightarrow> q \<in> set B \<and> pp_data_id q = pd_data_id a)"
      using ne by (cases p) auto
    finally show ?thesis .
  qed
  have "(a, p) \<in> set (left_join A B) \<longleftrightarrow>
      (\<exists>b\<in>set A. (a, p) \<in> set (case filter (\<lambda>q. pp_data_id q = pd_data_id b) B of
                      [] \<Rightarrow> [(b, None)] | ps \<Rightarrow> map (\<lambda>q. (b, Some q)) ps))"
    by (simp add: left_join_def)
  also have "\<dots> \<longleftrightarrow> (\<exists>b\<in>set A. a = b \<and> (case p of None \<Rightarrow> filter (\<lambda>q. pp_data_id q = pd_data_id a) B = []
                    | Some q \<Rightarrow> q \<in> set B \<and> pp_data_id q = pd_data_id a))"
    by (simp only: one)
  also have "\<dots> \<longleftrightarrow> a \<in> set A \<and> (case p of None \<Rightarrow> filter (\<lambda>q. pp_data_id q = pd_data_id a) B = []
                    | Some q \<Rightarrow> q \<in> set B \<and> pp_data_id q = pd_data_id a)"
    by blast
  finally show ?thesis .
qed

lemma left_join_public:
  assumes "one_collection A" and "(a, p) \<in> set (left_join A (create_pub_proj_data_table A S))"
  shows "p \<noteq> None \<longleftrightarrow> pd_coll_id a \<in> set S \<and> pd_data_id a \<in> set S"
proof -
  have a: "a \<in> set A" using assms(2) by (simp add: left_join_set)
  have m: "filter (\<lambda>q. pp_data_id q = pd_data_id a) (create_pub_proj_data_table A S) = [] \<longleftrightarrow> \<not> is_pub S a"
    using a by (auto simp: matches_pub [OF assms(1) a] filter_empty_conv)
  show ?thesis
  proof (cases p)
    case None
    then show ?thesis using assms(2) m by (simp add: left_join_set is_pub_def)
  next
    case (Some q)
    then have "q \<in> set (filter (\<lambda>q. pp_data_id q = pd_data_id a) (create_pub_proj_data_table A S))"
      using assms(2) by (simp add: left_join_set)
    then have "is_pub S a" using m by (metis empty_iff list.set(1))
    then show ?thesis using Some by (simp add: is_pub_def)
  qed
qed

text \<open>
  C1. The public set holds exactly the identifiers with an access entry of the user
  \<open>public\<close>; \<open>pub_proj_data\<close> holds exactly the rows of \<open>proj_data\<close> whose collection
  and data identifiers are both in that set, so that for each project a row contributes its
  bytes with both and nothing with one only; and when the rows of one data identifier lie in
  one collection, the final query joins a row of \<open>proj_data\<close> to a public row exactly when
  both identifiers are in the set, its public volume summing those rows alone.
\<close>

theorem public_needs_object_and_collection:
  assumes "create_pub_obj_table access users = Returns pub_obj"
  shows "set pub_obj = {object_id a | a. a \<in> set access
            \<and> (\<exists>u\<in>set users. user_name u = ''public'' \<and> access_user_id a = user_id u)}
    \<and> create_pub_proj_data_table proj_data pub_obj
        = map to_pub (filter (\<lambda>r. pd_coll_id r \<in> set pub_obj \<and> pd_data_id r \<in> set pub_obj) proj_data)
    \<and> (\<forall>proj. sum_list (map pp_data_size
                   (filter (\<lambda>p. pp_proj p = proj) (create_pub_proj_data_table proj_data pub_obj)))
          = sum_list (map (\<lambda>r. if pd_coll_id r \<in> set pub_obj \<and> pd_data_id r \<in> set pub_obj
                                then pd_data_size r else 0) (project_rows proj proj_data)))
    \<and> (one_collection proj_data \<longrightarrow>
          (\<forall>a p. (a, p) \<in> set (left_join proj_data (create_pub_proj_data_table proj_data pub_obj))
             \<longrightarrow> (p \<noteq> None \<longleftrightarrow> pd_coll_id a \<in> set pub_obj \<and> pd_data_id a \<in> set pub_obj))
          \<and> (\<forall>proj. pub_vol (group_rows proj
                        (left_join proj_data (create_pub_proj_data_table proj_data pub_obj)))
                = sum_list (map (\<lambda>r. if pd_coll_id r \<in> set pub_obj \<and> pd_data_id r \<in> set pub_obj
                                then pd_data_size r * int (replicas proj_data r) else 0)
                             (project_rows proj proj_data))))"
proof -
  have 1: "set pub_obj = {object_id a | a. a \<in> set access
            \<and> (\<exists>u\<in>set users. user_name u = ''public'' \<and> access_user_id a = user_id u)}"
    by (rule pub_obj_set [OF assms])
  have 2: "create_pub_proj_data_table proj_data pub_obj
        = map to_pub (filter (\<lambda>r. pd_coll_id r \<in> set pub_obj \<and> pd_data_id r \<in> set pub_obj) proj_data)"
    by (simp add: create_pub_proj_data_table_def is_pub_def [abs_def])
  have 3: "\<forall>proj. sum_list (map pp_data_size
                   (filter (\<lambda>p. pp_proj p = proj) (create_pub_proj_data_table proj_data pub_obj)))
          = sum_list (map (\<lambda>r. if pd_coll_id r \<in> set pub_obj \<and> pd_data_id r \<in> set pub_obj
                                then pd_data_size r else 0) (project_rows proj proj_data))"
    by (simp only: pub_proj_data_bytes) simp
  have 4: "\<forall>a p. (a, p) \<in> set (left_join proj_data (create_pub_proj_data_table proj_data pub_obj))
             \<longrightarrow> (p \<noteq> None \<longleftrightarrow> pd_coll_id a \<in> set pub_obj \<and> pd_data_id a \<in> set pub_obj)"
    if "one_collection proj_data"
    using left_join_public [OF that] by blast
  have 5: "\<forall>proj. pub_vol (group_rows proj
                        (left_join proj_data (create_pub_proj_data_table proj_data pub_obj)))
                = sum_list (map (\<lambda>r. if pd_coll_id r \<in> set pub_obj \<and> pd_data_id r \<in> set pub_obj
                                then pd_data_size r * int (replicas proj_data r) else 0)
                             (project_rows proj proj_data))"
    if "one_collection proj_data"
    by (simp only: pub_vol_one_collection [OF that] sum_list_filter_indicator [where P = "is_pub pub_obj"]
          is_pub_def) simp
  show ?thesis using 1 2 3 4 5 by blast
qed

theorem public_needs_object_and_collection_witness:
  "create_pub_obj_table (objt_access private_object_scenario) (user_main private_object_scenario)
     = Returns [100]
   \<and> create_pub_proj_data_table
        [\<lparr>pd_proj = ''proj1'', pd_coll_id = 100, pd_data_id = 200, pd_data_size = 2 ^ 30\<rparr>] [100] = []
   \<and> volumes_of private_object_scenario ''zoneX'' [''resA'']
       = Returns [\<lparr>Total = 1, Public = 0, Private = 1, Project = ''proj1''\<rparr>]
   \<and> volumes_of private_collection_scenario ''zoneX'' [''resA'']
       = Returns [\<lparr>Total = 1, Public = 0, Private = 1, Project = ''proj1''\<rparr>]
   \<and> volumes_of scenario ''zoneX'' [''resA'']
       = Returns [\<lparr>Total = 1, Public = 1, Private = 0, Project = ''proj1''\<rparr>]"
proof -
  let ?A = "[\<lparr>pd_proj = ''proj1'', pd_coll_id = 100, pd_data_id = 200, pd_data_size = 2 ^ 30\<rparr>]"
  have h: "create_pub_obj_table (objt_access private_object_scenario) (user_main private_object_scenario)
     = Returns [100]" by code_simp
  from public_needs_object_and_collection [OF h, of ?A]
  have "create_pub_proj_data_table ?A [100]
        = map to_pub (filter (\<lambda>r. pd_coll_id r \<in> set [100] \<and> pd_data_id r \<in> set [100]) ?A)"
    by blast
  then have e: "create_pub_proj_data_table ?A [100] = []" by simp
  have v1: "volumes_of private_object_scenario ''zoneX'' [''resA'']
       = Returns [\<lparr>Total = 1, Public = 0, Private = 1, Project = ''proj1''\<rparr>]" by code_simp
  have v2: "volumes_of private_collection_scenario ''zoneX'' [''resA'']
       = Returns [\<lparr>Total = 1, Public = 0, Private = 1, Project = ''proj1''\<rparr>]" by code_simp
  have v3: "volumes_of scenario ''zoneX'' [''resA'']
       = Returns [\<lparr>Total = 1, Public = 1, Private = 0, Project = ''proj1''\<rparr>]" by code_simp
  show ?thesis using h e v1 v2 v3 by simp
qed

section \<open>Data identifiers that occur once\<close>

lemma proj_data_ids_distinct:
  assumes "distinct (map pc_coll_id proj_coll)"
    and "distinct (map data_id (filter (\<lambda>d. data_resc_id d \<in> set store_resc) datas))"
  shows "distinct (map pd_data_id (create_proj_data_table proj_coll datas store_resc))"
  using assms(1)
proof (induction proj_coll)
  case Nil
  then show ?case by (simp add: create_proj_data_table_def)
next
  case (Cons c cs)
  let ?on = "filter (\<lambda>d. data_resc_id d \<in> set store_resc) datas"
  let ?here = "filter (\<lambda>d. data_coll_id d = pc_coll_id c \<and> data_resc_id d \<in> set store_resc) datas"
  have split: "map pd_data_id (create_proj_data_table (c # cs) datas store_resc)
      = map data_id ?here @ map pd_data_id (create_proj_data_table cs datas store_resc)"
    by (simp add: create_proj_data_table_def comp_def)
  have here: "?here = filter (\<lambda>d. data_coll_id d = pc_coll_id c) ?on"
    by (simp add: conj_commute)
  have d1: "distinct (map data_id ?here)"
    unfolding here using assms(2) by (rule distinct_map_filter)
  have d2: "distinct (map pd_data_id (create_proj_data_table cs datas store_resc))"
    using Cons by simp
  have inj: "inj_on data_id (set ?on)"
    using assms(2) by (simp add: distinct_map)
  have disj: "set (map data_id ?here) \<inter> set (map pd_data_id (create_proj_data_table cs datas store_resc)) = {}"
  proof (rule ccontr)
    assume "\<not> ?thesis"
    then obtain i where i1: "i \<in> set (map data_id ?here)"
      and i2: "i \<in> set (map pd_data_id (create_proj_data_table cs datas store_resc))" by blast
    from i1 obtain d where d: "d \<in> set ?on" "data_coll_id d = pc_coll_id c" "data_id d = i" by auto
    from i2 obtain x where x: "x \<in> set (create_proj_data_table cs datas store_resc)" "pd_data_id x = i"
      by auto
    from x(1) obtain c' d' where cd: "c' \<in> set cs" "d' \<in> set datas" "data_coll_id d' = pc_coll_id c'"
        "data_resc_id d' \<in> set store_resc"
        "x = \<lparr>pd_proj = pc_proj c', pd_coll_id = pc_coll_id c', pd_data_id = data_id d', pd_data_size = data_size d'\<rparr>"
      unfolding proj_data_set by blast
    have d': "c' \<in> set cs" "d' \<in> set ?on" "data_coll_id d' = pc_coll_id c'" "data_id d' = i"
      using cd x(2) by simp_all
    have "d = d'" using inj d(1,3) d'(2,4) by (simp add: inj_on_def)
    then have "pc_coll_id c = pc_coll_id c'" using d(2) d'(3) by simp
    moreover have "pc_coll_id c \<notin> pc_coll_id ` set cs" using Cons.prems by simp
    ultimately show False using d'(1) by auto
  qed
  show ?case unfolding split using d1 d2 disj by simp
qed

lemma distinct_one_collection:
  assumes "distinct (map pd_data_id A)"
  shows "one_collection A"
  unfolding one_collection_def
proof (intro ballI impI)
  fix a b assume "a \<in> set A" "b \<in> set A" "pd_data_id a = pd_data_id b"
  then have "a = b" using assms by (meson distinct_map inj_onD)
  then show "pd_coll_id a = pd_coll_id b \<and> pd_proj a = pd_proj b" by simp
qed

lemma distinct_replicas:
  assumes "distinct (map pd_data_id A)" and "a \<in> set A"
  shows "replicas A a = 1"
proof -
  have "filter (\<lambda>r. pd_data_id r = pd_data_id a) A = [a]"
    using assms
  proof (induction A)
    case Nil
    then show ?case by simp
  next
    case (Cons x xs)
    show ?case
    proof (cases "x = a")
      case True
      then have "pd_data_id a \<notin> set (map pd_data_id xs)" using Cons.prems(1) by simp
      then have "\<forall>r\<in>set xs. pd_data_id r \<noteq> pd_data_id a"
        by (metis image_eqI list.set_map)
      then have "filter (\<lambda>r. pd_data_id r = pd_data_id a) xs = []"
        by (simp add: filter_empty_conv)
      then show ?thesis using True by simp
    next
      case False
      then have a: "a \<in> set xs" using Cons.prems(2) by simp
      have "pd_data_id x \<notin> set (map pd_data_id xs)" using Cons.prems(1) by simp
      then have "pd_data_id x \<noteq> pd_data_id a" using a by (metis image_eqI list.set_map)
      then show ?thesis using Cons.IH a Cons.prems(1) by simp
    qed
  qed
  then show ?thesis by (simp add: replicas_def)
qed

lemma volumes_distinct_ids:
  assumes "distinct (map pd_data_id A)"
  shows "tot_vol (group_rows proj (left_join A (create_pub_proj_data_table A S)))
           = sum_list (map pd_data_size (project_rows proj A))"
    and "pub_vol (group_rows proj (left_join A (create_pub_proj_data_table A S)))
           = sum_list (map pp_data_size (filter (\<lambda>p. pp_proj p = proj) (create_pub_proj_data_table A S)))"
proof -
  have r: "replicas A a = 1" if "a \<in> set (project_rows proj A)" for a
    using that distinct_replicas [OF assms] by (simp add: project_rows_def)
  have "sum_list (map (\<lambda>a. pd_data_size a * int (if is_pub S a then replicas A a else 1)) (project_rows proj A))
      = sum_list (map pd_data_size (project_rows proj A))"
    by (intro arg_cong [where f = sum_list] map_cong refl) (simp add: r)
  then show "tot_vol (group_rows proj (left_join A (create_pub_proj_data_table A S)))
           = sum_list (map pd_data_size (project_rows proj A))"
    by (simp only: tot_vol_one_collection [OF distinct_one_collection [OF assms]])
  have "sum_list (map (\<lambda>a. pd_data_size a * int (replicas A a)) (filter (is_pub S) (project_rows proj A)))
      = sum_list (map pd_data_size (filter (is_pub S) (project_rows proj A)))"
    by (intro arg_cong [where f = sum_list] map_cong refl) (simp add: r)
  also have "\<dots> = sum_list (map pp_data_size (filter (\<lambda>p. pp_proj p = proj) (create_pub_proj_data_table A S)))"
    by (simp only: pub_proj_data_bytes sum_list_filter_indicator [where P = "is_pub S"] is_pub_def)
  finally show "pub_vol (group_rows proj (left_join A (create_pub_proj_data_table A S)))
           = sum_list (map pp_data_size (filter (\<lambda>p. pp_proj p = proj) (create_pub_proj_data_table A S)))"
    by (simp only: pub_vol_one_collection [OF distinct_one_collection [OF assms]])
qed

section \<open>The classifier on the reserved path, the root and well-formed paths\<close>

text \<open>
  For a zone of letters, digits, \<open>_\<close> and \<open>-\<close>: the reserved path and every path below
  it match the exclusion pattern, the shared root itself does not match the \<open>LIKE\<close>
  pattern, and a path below the root that is kept is assigned its first segment.
\<close>

lemma sql_like_append:
  assumes "CHR ''%'' \<notin> set p"
  shows "sql_like (p @ q) u
     = (length p \<le> length u \<and> like_literal p (take (length p) u) \<and> sql_like q (drop (length p) u))"
  using assms
proof (induction p arbitrary: u)
  case Nil
  then show ?case by (simp add: like_literal_def)
next
  case (Cons a p)
  show ?case
  proof (cases u)
    case Nil
    have "a \<noteq> CHR ''%''" using Cons.prems by auto
    then show ?thesis using Nil by simp
  next
    case (Cons c cs)
    have "a \<noteq> CHR ''%''" "CHR ''%'' \<notin> set p" using Cons.prems by auto
    then show ?thesis using Cons Cons.IH [of cs] by (auto simp: like_literal_def)
  qed
qed

lemma sql_like_percent: "sql_like ''%'' u"
  by (induction u) simp_all

lemma like_literal_refl: "like_literal p p"
  by (simp add: like_literal_def list_all2_same)

lemma plain_zone_no_percent: "plain_zone zone \<Longrightarrow> CHR ''%'' \<notin> set zone"
proof
  assume z: "plain_zone zone" and p: "CHR ''%'' \<in> set zone"
  have "\<not> (is_ascii_word (CHR ''%'') \<or> CHR ''%'' = CHR ''-'')" by (simp add: is_ascii_word_def)
  then show False using z p by (auto simp: plain_zone_def list_all_iff)
qed

lemma shared_prefix_matches:
  assumes "plain_zone zone"
  shows "sql_like (''/'' @ zone @ ''/home/shared/%'') (''/'' @ zone @ ''/home/shared/'' @ rest)"
proof -
  let ?pre = "''/'' @ zone @ ''/home/shared/''"
  have np: "CHR ''%'' \<notin> set ?pre" using plain_zone_no_percent [OF assms] by simp
  have "sql_like (?pre @ ''%'') (?pre @ rest)"
    unfolding sql_like_append [OF np] by (simp add: like_literal_refl sql_like_percent)
  then show ?thesis by simp
qed

lemma shared_root_not_classified:
  assumes "plain_zone zone"
  shows "\<not> sql_like (''/'' @ zone @ ''/home/shared/%'') (''/'' @ zone @ ''/home/shared'')"
proof -
  let ?pre = "''/'' @ zone @ ''/home/shared/''"
  have np: "CHR ''%'' \<notin> set ?pre" using plain_zone_no_percent [OF assms] by simp
  have "\<not> sql_like (?pre @ ''%'') (''/'' @ zone @ ''/home/shared'')"
    unfolding sql_like_append [OF np] by simp
  then show ?thesis by simp
qed

lemma commons_repo_excluded:
  assumes "plain_zone zone" and "rest = [] \<or> hd rest = CHR ''/''"
  shows "similar_to_commons_repo zone (''/'' @ zone @ ''/home/shared/commons_repo'' @ rest)"
proof -
  let ?base = "''/'' @ zone @ ''/home/shared/commons_repo''"
  have np: "CHR ''%'' \<notin> set ?base" using plain_zone_no_percent [OF assms(1)] by simp
  have np': "CHR ''%'' \<notin> set (?base @ ''/'')" using np by simp
  show ?thesis
  proof (cases rest)
    case Nil
    have "sql_like (?base @ []) (?base @ [])"
      unfolding sql_like_append [OF np] by (simp add: like_literal_refl)
    then show ?thesis using Nil by (simp add: similar_to_commons_repo_def)
  next
    case (Cons c cs)
    then have c: "c = CHR ''/''" using assms(2) by simp
    have "sql_like ((?base @ ''/'') @ ''%'') ((?base @ ''/'') @ cs)"
      unfolding sql_like_append [OF np'] by (simp add: like_literal_refl sql_like_percent)
    then show ?thesis using Cons c by (simp add: similar_to_commons_repo_def)
  qed
qed

lemma regexp_replace_first_here:
  "match_here pre s = Some seg \<Longrightarrow> regexp_replace_first pre s = seg"
  by (cases s) (auto simp: match_here_def)

lemma first_segment_is_project:
  assumes "seg \<noteq> []" and "CHR ''/'' \<notin> set seg" and "rest = [] \<or> hd rest = CHR ''/''"
  shows "regexp_replace_first (''/'' @ zone @ ''/home/shared/'') (''/'' @ zone @ ''/home/shared/'' @ seg @ rest) = seg"
proof -
  let ?pre = "''/'' @ zone @ ''/home/shared/''"
  have tw: "takeWhile (\<lambda>c. c \<noteq> CHR ''/'') (seg @ rest) = seg"
  proof (cases rest)
    case Nil
    have "\<forall>x\<in>set seg. x \<noteq> CHR ''/''" using assms(2) by blast
    then show ?thesis using Nil by (simp add: takeWhile_eq_all_conv)
  next
    case (Cons c cs)
    then have c: "c = CHR ''/''" using assms(3) by simp
    have "\<forall>x\<in>set seg. x \<noteq> CHR ''/''" using assms(2) by blast
    then have "takeWhile (\<lambda>c. c \<noteq> CHR ''/'') (seg @ CHR ''/'' # cs) = seg"
      by (simp add: takeWhile_tail takeWhile_eq_all_conv)
    then show ?thesis using Cons c by simp
  qed
  have m: "match_here ?pre (?pre @ seg @ rest) = Some seg"
    unfolding match_here_def using tw assms(1) by simp
  have "regexp_replace_first ?pre (?pre @ seg @ rest) = seg"
    by (rule regexp_replace_first_here [OF m])
  then show ?thesis by simp
qed

section \<open>The rows of the project data, counted\<close>

lemma length_filter_indicator:
  "int (length (filter P xs)) = sum_list (map (\<lambda>x. if P x then 1 else 0) xs)"
  by (induction xs) simp_all

lemma sum_list_concat_map:
  "sum_list (concat (map f xs)) = sum_list (map (\<lambda>x. sum_list (f x)) xs)" for f :: "'a \<Rightarrow> int list"
  by (induction xs) simp_all

lemma proj_data_sum:
  "sum_list (map F (create_proj_data_table pc datas store_resc))
   = sum_list (map (\<lambda>c. sum_list (map (\<lambda>d. F \<lparr>pd_proj = pc_proj c, pd_coll_id = pc_coll_id c,
                                                  pd_data_id = data_id d, pd_data_size = data_size d\<rparr>)
        (filter (\<lambda>d. data_coll_id d = pc_coll_id c \<and> data_resc_id d \<in> set store_resc) datas))) pc)"
  for F :: "proj_data_row \<Rightarrow> int"
  by (simp add: create_proj_data_table_def map_concat sum_list_concat_map comp_def)

lemma join_sum_swap:
  "sum_list (map (\<lambda>c. sum_list (map (h c) (filter (\<lambda>d. k d = key c \<and> R d) ds))) cs)
   = sum_list (map (\<lambda>d. if R d then sum_list (map (\<lambda>c. h c d) (filter (\<lambda>c. key c = k d) cs)) else (0::int)) ds)"
proof (induction cs)
  case Nil
  show ?case by (induction ds) simp_all
next
  case (Cons c cs)
  have "sum_list (map (\<lambda>d. if R d then sum_list (map (\<lambda>c. h c d) (filter (\<lambda>c. key c = k d) (c # cs))) else 0) ds)
      = sum_list (map (\<lambda>d. (if k d = key c \<and> R d then h c d else 0)
           + (if R d then sum_list (map (\<lambda>c. h c d) (filter (\<lambda>c. key c = k d) cs)) else 0)) ds)"
    by (intro arg_cong [where f = sum_list] map_cong refl) auto
  also have "\<dots> = sum_list (map (\<lambda>d. if k d = key c \<and> R d then h c d else 0) ds)
      + sum_list (map (\<lambda>d. if R d then sum_list (map (\<lambda>c. h c d) (filter (\<lambda>c. key c = k d) cs)) else 0) ds)"
    by (simp add: sum_list_addf)
  finally show ?case
    using Cons by (simp add: sum_list_filter_indicator [where P = "\<lambda>d. k d = key c \<and> R d"])
qed

lemma unique_key_sum:
  assumes "distinct (map key cs)"
  shows "sum_list (map (\<lambda>c. if Q c then v else 0) (filter (\<lambda>c. key c = x) cs))
         = (if \<exists>c\<in>set cs. key c = x \<and> Q c then v else (0::int))"
  using assms
proof (induction cs)
  case Nil
  then show ?case by simp
next
  case (Cons c cs)
  show ?case
  proof (cases "key c = x")
    case True
    then have "x \<notin> set (map key cs)" using Cons.prems by auto
    then have none: "\<forall>c'\<in>set cs. key c' \<noteq> x" by (metis image_eqI list.set_map)
    then have "filter (\<lambda>c. key c = x) cs = []" by (simp add: filter_empty_conv)
    then show ?thesis using True none by auto
  next
    case False
    then show ?thesis using Cons by auto
  qed
qed

lemma classified_sum:
  assumes "distinct (map pc_coll_id pc)"
  shows "sum_list (map (\<lambda>r. if T (pd_proj r) then v (pd_data_id r) (pd_data_size r) else 0)
                       (create_proj_data_table pc datas store_resc))
   = sum_list (map (\<lambda>d. if data_resc_id d \<in> set store_resc
                              \<and> (\<exists>c\<in>set pc. pc_coll_id c = data_coll_id d \<and> T (pc_proj c))
                           then v (data_id d) (data_size d) else (0::int)) datas)"
proof -
  have "sum_list (map (\<lambda>r. if T (pd_proj r) then v (pd_data_id r) (pd_data_size r) else 0)
                       (create_proj_data_table pc datas store_resc))
      = sum_list (map (\<lambda>c. sum_list (map (\<lambda>d. if T (pc_proj c) then v (data_id d) (data_size d) else 0)
          (filter (\<lambda>d. data_coll_id d = pc_coll_id c \<and> data_resc_id d \<in> set store_resc) datas))) pc)"
    unfolding proj_data_sum by (simp cong: if_cong)
  also have "\<dots> = sum_list (map (\<lambda>d. if data_resc_id d \<in> set store_resc
        then sum_list (map (\<lambda>c. if T (pc_proj c) then v (data_id d) (data_size d) else 0)
               (filter (\<lambda>c. pc_coll_id c = data_coll_id d) pc)) else 0) datas)"
    by (rule join_sum_swap)
  also have "\<dots> = sum_list (map (\<lambda>d. if data_resc_id d \<in> set store_resc
        then (if \<exists>c\<in>set pc. pc_coll_id c = data_coll_id d \<and> T (pc_proj c)
              then v (data_id d) (data_size d) else 0) else 0) datas)"
    by (simp only: unique_key_sum [OF assms])
  also have "\<dots> = sum_list (map (\<lambda>d. if data_resc_id d \<in> set store_resc
                              \<and> (\<exists>c\<in>set pc. pc_coll_id c = data_coll_id d \<and> T (pc_proj c))
                           then v (data_id d) (data_size d) else 0) datas)"
    by (intro arg_cong [where f = sum_list] map_cong refl) auto
  finally show ?thesis .
qed

lemma proj_data_count:
  assumes "distinct (map pc_coll_id pc)"
  shows "length (filter (\<lambda>r. pd_data_id r = i) (create_proj_data_table pc datas store_resc))
   = length (filter (\<lambda>d. data_id d = i \<and> data_resc_id d \<in> set store_resc
                          \<and> (\<exists>c\<in>set pc. pc_coll_id c = data_coll_id d)) datas)"
proof -
  have "int (length (filter (\<lambda>r. pd_data_id r = i) (create_proj_data_table pc datas store_resc)))
      = sum_list (map (\<lambda>r. if True then (if pd_data_id r = i then 1 else 0) else 0)
                      (create_proj_data_table pc datas store_resc))"
    by (simp add: length_filter_indicator)
  also have "\<dots> = sum_list (map (\<lambda>d. if data_resc_id d \<in> set store_resc
                              \<and> (\<exists>c\<in>set pc. pc_coll_id c = data_coll_id d \<and> True)
                           then (if data_id d = i then 1 else 0) else 0) datas)"
    by (rule classified_sum [OF assms, where T = "\<lambda>_. True" and v = "\<lambda>j s. if j = i then 1 else 0"])
  also have "\<dots> = sum_list (map (\<lambda>d. if data_id d = i \<and> data_resc_id d \<in> set store_resc
                          \<and> (\<exists>c\<in>set pc. pc_coll_id c = data_coll_id d) then 1 else 0) datas)"
    by (intro arg_cong [where f = sum_list] map_cong refl) auto
  also have "\<dots> = int (length (filter (\<lambda>d. data_id d = i \<and> data_resc_id d \<in> set store_resc
                          \<and> (\<exists>c\<in>set pc. pc_coll_id c = data_coll_id d)) datas))"
    by (simp add: length_filter_indicator)
  finally show ?thesis by simp
qed

lemma proj_data_bytes:
  assumes "distinct (map pc_coll_id pc)"
  shows "sum_list (map pd_data_size (project_rows proj (create_proj_data_table pc datas store_resc)))
   = sum_list (map data_size (filter (\<lambda>d. data_resc_id d \<in> set store_resc
        \<and> (\<exists>c\<in>set pc. pc_coll_id c = data_coll_id d \<and> pc_proj c = proj)) datas))"
proof -
  have "sum_list (map pd_data_size (project_rows proj (create_proj_data_table pc datas store_resc)))
      = sum_list (map (\<lambda>r. if pd_proj r = proj then pd_data_size r else 0)
                      (create_proj_data_table pc datas store_resc))"
    by (simp only: project_rows_def sum_list_filter_indicator)
  also have "\<dots> = sum_list (map (\<lambda>d. if data_resc_id d \<in> set store_resc
                              \<and> (\<exists>c\<in>set pc. pc_coll_id c = data_coll_id d \<and> pc_proj c = proj)
                           then data_size d else 0) datas)"
    by (rule classified_sum [OF assms, where T = "\<lambda>p. p = proj" and v = "\<lambda>j s. s"])
  also have "\<dots> = sum_list (map data_size (filter (\<lambda>d. data_resc_id d \<in> set store_resc
        \<and> (\<exists>c\<in>set pc. pc_coll_id c = data_coll_id d \<and> pc_proj c = proj)) datas))"
    by (simp only: sum_list_filter_indicator)
  finally show ?thesis .
qed

section \<open>Properties of the project data\<close>

text \<open>
  C5, as stated, fails: \<open>r_data_main\<close> has a row for each replica, and a data object with a
  replica on each of two selected resources gives two rows of \<open>proj_data\<close> with its
  identifier, which the sum of the final query takes twice.
\<close>

theorem replica_rows_counterexample:
  "temp_tables private_replica_scenario ''zoneX'' [''resA'']
     = Returns ([\<lparr>pd_proj = ''proj1'', pd_coll_id = 100, pd_data_id = 200, pd_data_size = 2 ^ 30\<rparr>,
                 \<lparr>pd_proj = ''proj1'', pd_coll_id = 100, pd_data_id = 200, pd_data_size = 2 ^ 30\<rparr>], [])
   \<and> replicas [\<lparr>pd_proj = ''proj1'', pd_coll_id = 100, pd_data_id = 200, pd_data_size = 2 ^ 30\<rparr>,
                 \<lparr>pd_proj = ''proj1'', pd_coll_id = 100, pd_data_id = 200, pd_data_size = 2 ^ 30\<rparr>]
        \<lparr>pd_proj = ''proj1'', pd_coll_id = 100, pd_data_id = 200, pd_data_size = 2 ^ 30\<rparr> = 2
   \<and> tot_vol (group_rows ''proj1'' (left_join
         [\<lparr>pd_proj = ''proj1'', pd_coll_id = 100, pd_data_id = 200, pd_data_size = 2 ^ 30\<rparr>,
          \<lparr>pd_proj = ''proj1'', pd_coll_id = 100, pd_data_id = 200, pd_data_size = 2 ^ 30\<rparr>] []))
       = 2 * 2 ^ 30"
  by code_simp

text \<open>A collection listed twice in \<open>r_coll_main\<close> is joined twice with each of its data rows.\<close>

lemma twice_listed_collection_joins_twice:
  "create_proj_coll_table twice_listed_colls ''zoneX''
     = Returns [\<lparr>pc_proj = ''proj1'', pc_coll_id = 100\<rparr>, \<lparr>pc_proj = ''proj1'', pc_coll_id = 100\<rparr>]
   \<and> create_proj_data_table [\<lparr>pc_proj = ''proj1'', pc_coll_id = 100\<rparr>, \<lparr>pc_proj = ''proj1'', pc_coll_id = 100\<rparr>]
        (data_main scenario) [1, 2]
       = [\<lparr>pd_proj = ''proj1'', pd_coll_id = 100, pd_data_id = 200, pd_data_size = 2 ^ 30\<rparr>,
          \<lparr>pd_proj = ''proj1'', pd_coll_id = 100, pd_data_id = 200, pd_data_size = 2 ^ 30\<rparr>]"
  by code_simp

text \<open>
  C5, amended. With distinct collection identifiers, the rows of \<open>proj_data\<close> are exactly
  those of a classified collection and a data row of that collection stored on a resource of
  \<open>store_resc\<close>: a data identifier has as many rows as it has data rows (replicas) stored
  there in classified collections, none for data on other resources, and the sizes of the rows
  of a project sum to the sizes of those data rows.  When no two data rows stored there share
  a data identifier, no identifier occurs twice in \<open>proj_data\<close> and the total volume the
  final query sums for a project is the sum of the sizes of its rows.
\<close>

theorem proj_data_rows_exact:
  assumes "create_proj_coll_table colls zone = Returns proj_coll"
    and "distinct (map coll_id colls)"
  shows "set (create_proj_data_table proj_coll datas store_resc)
      = {\<lparr>pd_proj = pc_proj c, pd_coll_id = pc_coll_id c, pd_data_id = data_id d, pd_data_size = data_size d\<rparr>
         | c d. c \<in> set proj_coll \<and> d \<in> set datas \<and> data_coll_id d = pc_coll_id c
                 \<and> data_resc_id d \<in> set store_resc}
    \<and> (\<forall>i. length (filter (\<lambda>r. pd_data_id r = i) (create_proj_data_table proj_coll datas store_resc))
          = length (filter (\<lambda>d. data_id d = i \<and> data_resc_id d \<in> set store_resc
                              \<and> (\<exists>c\<in>set proj_coll. pc_coll_id c = data_coll_id d)) datas))
    \<and> (\<forall>proj. sum_list (map pd_data_size
                   (project_rows proj (create_proj_data_table proj_coll datas store_resc)))
          = sum_list (map data_size (filter (\<lambda>d. data_resc_id d \<in> set store_resc
              \<and> (\<exists>c\<in>set proj_coll. pc_coll_id c = data_coll_id d \<and> pc_proj c = proj)) datas)))
    \<and> (distinct (map data_id (filter (\<lambda>d. data_resc_id d \<in> set store_resc) datas)) \<longrightarrow>
          distinct (map pd_data_id (create_proj_data_table proj_coll datas store_resc))
          \<and> (\<forall>proj pub_obj.
                tot_vol (group_rows proj
                  (left_join (create_proj_data_table proj_coll datas store_resc)
                     (create_pub_proj_data_table (create_proj_data_table proj_coll datas store_resc) pub_obj)))
                = sum_list (map pd_data_size
                    (project_rows proj (create_proj_data_table proj_coll datas store_resc)))))"
proof -
  let ?A = "create_proj_data_table proj_coll datas store_resc"
  have dc: "distinct (map pc_coll_id proj_coll)"
    by (rule proj_coll_distinct [OF assms])
  have 1: "set ?A
      = {\<lparr>pd_proj = pc_proj c, pd_coll_id = pc_coll_id c, pd_data_id = data_id d, pd_data_size = data_size d\<rparr>
         | c d. c \<in> set proj_coll \<and> d \<in> set datas \<and> data_coll_id d = pc_coll_id c
                 \<and> data_resc_id d \<in> set store_resc}"
    by (rule proj_data_set)
  have 2: "\<forall>i. length (filter (\<lambda>r. pd_data_id r = i) ?A)
          = length (filter (\<lambda>d. data_id d = i \<and> data_resc_id d \<in> set store_resc
                              \<and> (\<exists>c\<in>set proj_coll. pc_coll_id c = data_coll_id d)) datas)"
    using proj_data_count [OF dc] by blast
  have 3: "\<forall>proj. sum_list (map pd_data_size (project_rows proj ?A))
          = sum_list (map data_size (filter (\<lambda>d. data_resc_id d \<in> set store_resc
              \<and> (\<exists>c\<in>set proj_coll. pc_coll_id c = data_coll_id d \<and> pc_proj c = proj)) datas))"
    using proj_data_bytes [OF dc] by blast
  have 4: "distinct (map pd_data_id ?A)
          \<and> (\<forall>proj pub_obj.
                tot_vol (group_rows proj (left_join ?A (create_pub_proj_data_table ?A pub_obj)))
                = sum_list (map pd_data_size (project_rows proj ?A)))"
    if d: "distinct (map data_id (filter (\<lambda>d. data_resc_id d \<in> set store_resc) datas))"
  proof -
    have dA: "distinct (map pd_data_id ?A)"
      by (rule proj_data_ids_distinct [OF dc d])
    show ?thesis using dA volumes_distinct_ids(1) [OF dA] by blast
  qed
  show ?thesis using 1 2 3 4 by blast
qed

theorem proj_data_rows_exact_witness:
  "create_proj_coll_table (coll_main replica_scenario) ''zoneX''
     = Returns [\<lparr>pc_proj = ''proj1'', pc_coll_id = 100\<rparr>]
   \<and> distinct (map coll_id (coll_main replica_scenario))
   \<and> length (filter (\<lambda>r. pd_data_id r = 200)
        (create_proj_data_table [\<lparr>pc_proj = ''proj1'', pc_coll_id = 100\<rparr>] (data_main replica_scenario) [1, 2, 4]))
       = 2
   \<and> length (filter (\<lambda>r. pd_data_id r = 200)
        (create_proj_data_table [\<lparr>pc_proj = ''proj1'', pc_coll_id = 100\<rparr>] (data_main replica_scenario) [1, 2]))
       = 1
   \<and> sum_list (map pd_data_size (project_rows ''proj1''
        (create_proj_data_table [\<lparr>pc_proj = ''proj1'', pc_coll_id = 100\<rparr>] (data_main replica_scenario) [1, 2])))
       = 2 ^ 30"
proof -
  let ?pc = "[\<lparr>pc_proj = ''proj1'', pc_coll_id = 100\<rparr>]"
  have h1: "create_proj_coll_table (coll_main replica_scenario) ''zoneX'' = Returns ?pc" by code_simp
  have h2: "distinct (map coll_id (coll_main replica_scenario))"
    by (simp add: replica_scenario_def scenario_def)
  note t = proj_data_rows_exact [OF h1 h2, of "data_main replica_scenario"]
  have a: "length (filter (\<lambda>r. pd_data_id r = 200)
        (create_proj_data_table ?pc (data_main replica_scenario) [1, 2, 4]))
      = length (filter (\<lambda>d. data_id d = 200 \<and> data_resc_id d \<in> set [1, 2, 4]
                              \<and> (\<exists>c\<in>set ?pc. pc_coll_id c = data_coll_id d)) (data_main replica_scenario))"
    using t [of "[1, 2, 4]"] by blast
  have b: "length (filter (\<lambda>r. pd_data_id r = 200)
        (create_proj_data_table ?pc (data_main replica_scenario) [1, 2]))
      = length (filter (\<lambda>d. data_id d = 200 \<and> data_resc_id d \<in> set [1, 2]
                              \<and> (\<exists>c\<in>set ?pc. pc_coll_id c = data_coll_id d)) (data_main replica_scenario))"
    using t [of "[1, 2]"] by blast
  have c: "sum_list (map pd_data_size (project_rows ''proj1''
        (create_proj_data_table ?pc (data_main replica_scenario) [1, 2])))
      = sum_list (map data_size (filter (\<lambda>d. data_resc_id d \<in> set [1, 2]
              \<and> (\<exists>c\<in>set ?pc. pc_coll_id c = data_coll_id d \<and> pc_proj c = ''proj1'')) (data_main replica_scenario)))"
    using t [of "[1, 2]"] by blast
  have a': "length (filter (\<lambda>d. data_id d = 200 \<and> data_resc_id d \<in> set [1, 2, 4]
                              \<and> (\<exists>c\<in>set ?pc. pc_coll_id c = data_coll_id d)) (data_main replica_scenario)) = 2"
    by (simp add: replica_scenario_def scenario_def)
  have b': "length (filter (\<lambda>d. data_id d = 200 \<and> data_resc_id d \<in> set [1, 2]
                              \<and> (\<exists>c\<in>set ?pc. pc_coll_id c = data_coll_id d)) (data_main replica_scenario)) = 1"
    by (simp add: replica_scenario_def scenario_def)
  have c': "sum_list (map data_size (filter (\<lambda>d. data_resc_id d \<in> set [1, 2]
              \<and> (\<exists>c\<in>set ?pc. pc_coll_id c = data_coll_id d \<and> pc_proj c = ''proj1'')) (data_main replica_scenario)))
      = 2 ^ 30"
    by (simp add: replica_scenario_def scenario_def)
  show ?thesis
    using h1 h2 a b c by (simp only: a' b' c' simp_thms)
qed

section \<open>The conversion to gibibytes, evaluated\<close>

text \<open>
  The double precision quotient is rounded twice, to 15 significant digits and then to 3
  decimal digits: 10737503602475 bytes are 10000.07949999... gibibytes, the cast gives
  10000.0795 and the report would show 10000.080.
\<close>

lemma gib_examples:
  "gib 0 = 0 \<and> gib (2 ^ 30) = 1 \<and> gib (2 * 2 ^ 30) = 2
   \<and> gib 10737503602475 = 10000080 / 1000
   \<and> float8_of_int (2 ^ 53 + 1) = 2 ^ 53 \<and> float8_of_int (2 ^ 53 + 3) = 2 ^ 53 + 4
   \<and> numeric_of_float8 (1 / 3) = 333333333333333 / 10 ^ 15"
  by code_simp

end
